theory Spec2Isabelle
  imports Main "HOL-Library.Word" "HOL-Library.Monad_Syntax"
begin

unbundle bit_operations_syntax

section \<open>Machine-level data\<close>

text \<open>
  The C types of \<^verbatim>\<open>ossl.c\<close>: \<^verbatim>\<open>char\<close> is an 8-bit word, \<^verbatim>\<open>int\<close> a 32-bit word
  read in two's complement (\<open>sint\<close>, \<open><s\<close>), so that \<^verbatim>\<open>2 * buf_len\<close> wraps the way
  the overflow test of \<^verbatim>\<open>string2hex\<close> expects.  An array access outside the array is
  undefined behaviour in C; the model makes it the value \<open>None\<close>.
\<close>

type_synonym byte = "8 word"
type_synonym cint = "32 word"

definition rd :: "'a list \<Rightarrow> int \<Rightarrow> 'a option" where
  "rd xs k = (if 0 \<le> k \<and> k < int (length xs) then Some (xs ! nat k) else None)"

definition wr :: "'a list \<Rightarrow> int \<Rightarrow> 'a \<Rightarrow> 'a list option" where
  "wr xs k v = (if 0 \<le> k \<and> k < int (length xs) then Some (xs[nat k := v]) else None)"

section \<open>Hex codec: \<^verbatim>\<open>string2hex\<close>\<close>

text \<open>\<^verbatim>\<open>static const char hex[]="0123456789abcdef";\<close> (seventeen bytes with the terminator).\<close>

definition hex :: "byte list" where
  "hex = map of_char ''0123456789abcdef'' @ [0]"

text \<open>
  The \<^verbatim>\<open>for\<close> loop of \<^verbatim>\<open>string2hex\<close>, lines 35 to 38.  \<^verbatim>\<open>(unsigned char)buf[i] >> 4\<close>
  zero-extends the byte to \<^verbatim>\<open>int\<close> before shifting; \<^verbatim>\<open>buf[i] & 0x0f\<close> promotes the
  (signed) \<^verbatim>\<open>char\<close> with sign extension before masking.  The loop hands back \<open>i\<close>, which
  line 39 uses after the loop.
\<close>

function string2hex_loop ::
  "byte list \<Rightarrow> cint \<Rightarrow> cint \<Rightarrow> byte list \<Rightarrow> (cint \<times> byte list) option" where
  "string2hex_loop buf buf_len i hb =
     (if i <s buf_len then
        do {
          c \<leftarrow> rd buf (sint i);
          hi \<leftarrow> rd hex (sint (drop_bit 4 (ucast c :: cint)));
          hb1 \<leftarrow> wr hb (sint (2 * i)) hi;
          c' \<leftarrow> rd buf (sint i);
          lo \<leftarrow> rd hex (sint ((scast c' :: cint) AND 0x0f));
          hb2 \<leftarrow> wr hb1 (sint (2 * i + 1)) lo;
          string2hex_loop buf buf_len (i + 1) hb2
        }
      else Some (i, hb))"
  by pat_completeness auto

lemma sint_succ:
  assumes "i <s (n::cint)"
  shows "sint (i + 1) = sint i + 1"
proof -
  have "sint i < sint n" using assms by (simp add: word_sless_alt)
  moreover have "sint n < 2 ^ 31" using sint_lt [of n] by simp
  moreover have "- (2 ^ 31) \<le> sint i" using sint_ge [of i] by simp
  ultimately show ?thesis
    by (simp add: sint_word_ariths signed_take_bit_int_eq_self)
qed

termination string2hex_loop
proof (relation "measure (\<lambda>(buf, buf_len, i, hb). nat (sint buf_len - sint i))")
  show "wf (measure (\<lambda>(buf, buf_len, i, hb). nat (sint buf_len - sint i)))" by simp
next
  fix buf :: "byte list" and buf_len i :: cint and hb hb2 :: "byte list"
  assume lt: "i <s buf_len"
  have "sint i < sint buf_len" using lt by (simp add: word_sless_alt)
  thus "((buf, buf_len, i + 1, hb2), (buf, buf_len, i, hb))
          \<in> measure (\<lambda>(buf, buf_len, i, hb). nat (sint buf_len - sint i))"
    by (simp add: sint_succ [OF lt])
qed

declare string2hex_loop.simps [simp del]

text \<open>
  What the two out-parameters and the return value hold when \<^verbatim>\<open>string2hex\<close> returns.
  \<open>hexbuf_out\<close> is \<open>None\<close> when the caller passed a null \<^verbatim>\<open>hexbuf\<close>, otherwise the
  \<^verbatim>\<open>char *\<close> it points to (\<open>None\<close> for a null pointer, or the bytes of the block).
  \<open>hexbuf_len_out\<close> is \<open>None\<close> for a null \<^verbatim>\<open>hexbuf_len\<close>, otherwise the \<^verbatim>\<open>int\<close> there.
\<close>

record hex_result =
  retval :: cint
  hexbuf_out :: "byte list option option"
  hexbuf_len_out :: "cint option"

text \<open>
  \<^verbatim>\<open>string2hex\<close>, lines 17 to 45.  \<^verbatim>\<open>OPENSSL_malloc\<close> is the allocator of the native
  library, a parameter: it answers a request for \<open>n\<close> bytes with \<open>None\<close> (a null pointer)
  or with a block, whose bytes are whatever the allocator left there.  The outer
  \<open>option\<close> of the result is \<open>None\<close> when an access leaves its array.
\<close>

definition string2hex ::
  "(nat \<Rightarrow> byte list option) \<Rightarrow> byte list \<Rightarrow> cint \<Rightarrow> byte list option option \<Rightarrow> cint option
     \<Rightarrow> hex_result option" where
  "string2hex OPENSSL_malloc buf buf_len hexbuf hexbuf_len =
     (let len = 2 * buf_len in
      if buf_len <s 0 \<or> len <s buf_len then
        Some \<lparr>retval = - 1, hexbuf_out = hexbuf, hexbuf_len_out = hexbuf_len\<rparr>
      else if hexbuf = None then
        Some \<lparr>retval = len, hexbuf_out = hexbuf,
              hexbuf_len_out = map_option (\<lambda>_. len) hexbuf_len\<rparr>
      else
        (case OPENSSL_malloc (nat (sint (len + 1))) of
           None \<Rightarrow> Some \<lparr>retval = - 1, hexbuf_out = Some None, hexbuf_len_out = hexbuf_len\<rparr>
         | Some blk \<Rightarrow>
             do {
               (i, hb) \<leftarrow> string2hex_loop buf buf_len 0 blk;
               hb' \<leftarrow> wr hb (sint (2 * i)) 0;
               Some \<lparr>retval = len, hexbuf_out = Some (Some hb'),
                     hexbuf_len_out = map_option (\<lambda>_. len) hexbuf_len\<rparr>
             }))"




text \<open>Two allocators to run the function on: one that is out of memory, one that
  hands out blocks filled with the byte \<open>0xff\<close>.\<close>

definition malloc_exhausted :: "nat \<Rightarrow> byte list option" where
  "malloc_exhausted n = None"

definition malloc_ff :: "nat \<Rightarrow> byte list option" where
  "malloc_ff n = Some (replicate n 255)"

subsection \<open>Arithmetic of the C types\<close>

lemma sint_eq_unat:
  assumes "unat (w::cint) < 2 ^ 31"
  shows "sint w = int (unat w)"
proof -
  have "int (unat w) < int (2 ^ 31)" using assms by (rule iffD2 [OF of_nat_less_iff])
  hence lt: "uint w < 2 ^ 31" by simp
  have "(0::int) \<le> uint w" by simp
  moreover have "- (2 ^ 31) \<le> (0::int)" by simp
  ultimately have ge: "- (2 ^ 31) \<le> uint w" by (rule order_trans [rotated])
  have "sint w = signed_take_bit 31 (uint w)" by (simp add: sint_uint)
  also have "\<dots> = uint w" using ge lt by (rule signed_take_bit_int_eq_self)
  finally show ?thesis by simp
qed

lemma sint_of_nat:
  assumes "n < 2 ^ 31"
  shows "sint (of_nat n :: cint) = int n"
proof -
  have "unat (of_nat n :: cint) = n" using assms by (simp add: unat_of_nat)
  thus ?thesis using sint_eq_unat [of "of_nat n"] assms by simp
qed















lemma double_not_minus_one: "2 * (x::cint) \<noteq> - 1"
proof
  assume "2 * x = - 1"
  hence "even (- 1 :: cint)" by (metis even_mult_iff even_numeral)
  thus False by simp
qed

lemma mod_above: "m \<le> k \<Longrightarrow> k < 2 * m \<Longrightarrow> (k::int) mod m = k - m"
proof -
  assume a: "m \<le> k" "k < 2 * m"
  have "k mod m = (k - m + m) mod m" by simp
  also have "\<dots> = (k - m) mod m" by (rule mod_add_self2)
  also have "\<dots> = k - m" using a by (intro mod_pos_pos_trivial) simp_all
  finally show ?thesis .
qed

lemma mod_below: "- m \<le> k \<Longrightarrow> k < 0 \<Longrightarrow> (k::int) mod m = k + m"
proof -
  assume a: "- m \<le> k" "k < 0"
  have "k mod m = (k + m) mod m" by (rule mod_add_self2 [symmetric])
  also have "\<dots> = k + m" using a by (intro mod_pos_pos_trivial) simp_all
  finally show ?thesis .
qed

lemma sint_double:
  "sint (2 * (x::cint)) = (if 2 * sint x < 2 ^ 31 \<and> - (2 ^ 31) \<le> 2 * sint x then 2 * sint x
                           else if 2 ^ 31 \<le> 2 * sint x then 2 * sint x - 2 ^ 32 else 2 * sint x + 2 ^ 32)"
proof -
  have b: "- (2 ^ 31) \<le> sint x" "sint x < 2 ^ 31" using sint_ge [of x] sint_lt [of x] by simp_all
  define k where "k = 2 * sint x + 2 ^ 31"
  have "sint (2 * x) = signed_take_bit 31 (2 * sint x)"
    by (simp add: sint_word_ariths)
  also have "\<dots> = k mod 2 ^ 32 - 2 ^ 31"
    by (simp add: signed_take_bit_eq_take_bit_shift take_bit_eq_mod k_def)
  finally have e: "sint (2 * x) = k mod 2 ^ 32 - 2 ^ 31" .
  show ?thesis
  proof (cases "2 * sint x < 2 ^ 31 \<and> - (2 ^ 31) \<le> 2 * sint x")
    case True
    hence "k mod 2 ^ 32 = k"
      by (intro mod_pos_pos_trivial) (simp_all add: k_def)
    thus ?thesis using e True by (simp add: k_def)
  next
    case False
    show ?thesis
    proof (cases "2 ^ 31 \<le> 2 * sint x")
      case True
      hence "k mod 2 ^ 32 = k - 2 ^ 32"
        using b by (intro mod_above) (simp_all add: k_def)
      thus ?thesis using e True by (simp add: k_def)
    next
      case F2: False
      hence "k mod 2 ^ 32 = k + 2 ^ 32"
        using False b by (intro mod_below) (simp_all add: k_def)
      thus ?thesis using e False F2 by (simp add: k_def)
    qed
  qed
qed

lemma overflow_check:
  assumes "\<not> (buf_len::cint) <s 0"
  shows "2 * buf_len <s buf_len \<longleftrightarrow> 2 ^ 31 \<le> 2 * sint buf_len"
proof -
  have "0 \<le> sint buf_len" using assms by (simp add: word_sless_alt)
  moreover have "sint buf_len < 2 ^ 31" using sint_lt [of buf_len] by simp
  ultimately show ?thesis
    by (simp add: word_sless_alt sint_double)
qed


subsection \<open>The encoder with a destination\<close>




subsection \<open>The failure value\<close>

text \<open>
  With a destination and an allocator that is out of memory, \<^verbatim>\<open>string2hex\<close> returns
  \<open>-1\<close> for the empty input, whose length is not negative and does not overflow when
  doubled; it has by then stored the null pointer through \<^verbatim>\<open>hexbuf\<close> (line 32).
\<close>

theorem string2hex_sentinel_counterexample:
  "string2hex malloc_exhausted [] 0 (Some None) (Some 7)
     = Some \<lparr>retval = - 1, hexbuf_out = Some None, hexbuf_len_out = Some 7\<rparr>
   \<and> \<not> ((0::cint) <s 0) \<and> \<not> (2 * 0 <s (0::cint))"
  by (simp add: string2hex_def malloc_exhausted_def)


text \<open>
  C7, amended.  \<^verbatim>\<open>string2hex\<close> returns \<open>-1\<close> with both out-parameters untouched
  when the input length is negative or its double wraps below it; it also returns \<open>-1\<close>
  when a destination is asked for and the allocation of \<open>len + 1\<close> bytes fails, and then
  the destination pointer has been set to null while the length out-parameter is
  untouched.  Whenever it returns, the value is \<open>-1\<close> in exactly these three cases.
  For a non-negative length the test \<^verbatim>\<open>len < buf_len\<close> holds exactly when doubling
  overflows the 32-bit \<^verbatim>\<open>int\<close>.
\<close>

theorem string2hex_sentinel:
  "(buf_len <s 0 \<or> 2 * buf_len <s buf_len \<longrightarrow>
      string2hex OPENSSL_malloc buf buf_len hexbuf hexbuf_len
        = Some \<lparr>retval = - 1, hexbuf_out = hexbuf, hexbuf_len_out = hexbuf_len\<rparr>)
   \<and> (\<not> buf_len <s 0 \<and> \<not> 2 * buf_len <s buf_len \<and> hexbuf \<noteq> None
        \<and> OPENSSL_malloc (nat (sint (2 * buf_len + 1))) = None \<longrightarrow>
      string2hex OPENSSL_malloc buf buf_len hexbuf hexbuf_len
        = Some \<lparr>retval = - 1, hexbuf_out = Some None, hexbuf_len_out = hexbuf_len\<rparr>)
   \<and> (\<forall>r. string2hex OPENSSL_malloc buf buf_len hexbuf hexbuf_len = Some r \<longrightarrow>
        (retval r = - 1 \<longleftrightarrow>
           buf_len <s 0 \<or> 2 * buf_len <s buf_len
           \<or> (hexbuf \<noteq> None \<and> OPENSSL_malloc (nat (sint (2 * buf_len + 1))) = None)))
   \<and> (\<not> buf_len <s 0 \<longrightarrow> (2 * buf_len <s buf_len \<longleftrightarrow> 2 ^ 31 \<le> 2 * sint buf_len))"
proof (intro conjI allI impI)
  assume "buf_len <s 0 \<or> 2 * buf_len <s buf_len"
  thus "string2hex OPENSSL_malloc buf buf_len hexbuf hexbuf_len
        = Some \<lparr>retval = - 1, hexbuf_out = hexbuf, hexbuf_len_out = hexbuf_len\<rparr>"
    by (auto simp add: string2hex_def Let_def)
next
  assume "\<not> buf_len <s 0 \<and> \<not> 2 * buf_len <s buf_len \<and> hexbuf \<noteq> None
        \<and> OPENSSL_malloc (nat (sint (2 * buf_len + 1))) = None"
  thus "string2hex OPENSSL_malloc buf buf_len hexbuf hexbuf_len
        = Some \<lparr>retval = - 1, hexbuf_out = Some None, hexbuf_len_out = hexbuf_len\<rparr>"
    by (simp add: string2hex_def Let_def)
next
  fix r
  assume r: "string2hex OPENSSL_malloc buf buf_len hexbuf hexbuf_len = Some r"
  show "retval r = - 1 \<longleftrightarrow>
           buf_len <s 0 \<or> 2 * buf_len <s buf_len
           \<or> (hexbuf \<noteq> None \<and> OPENSSL_malloc (nat (sint (2 * buf_len + 1))) = None)"
  proof (cases "buf_len <s 0 \<or> 2 * buf_len <s buf_len")
    case True
    thus ?thesis using r by (auto simp add: string2hex_def Let_def)
  next
    case guard: False
    show ?thesis
    proof (cases "hexbuf = None")
      case True
      thus ?thesis using r guard double_not_minus_one [of buf_len]
        by (auto simp add: string2hex_def Let_def)
    next
      case dest: False
      show ?thesis
      proof (cases "OPENSSL_malloc (nat (sint (2 * buf_len + 1)))")
        case None
        thus ?thesis using r guard dest by (auto simp add: string2hex_def Let_def)
      next
        case (Some blk)
        hence "retval r = 2 * buf_len" using r guard dest
          by (auto simp add: string2hex_def Let_def bind_eq_Some_conv split: prod.splits)
        thus ?thesis using Some guard double_not_minus_one [of buf_len] by simp
      qed
    qed
  qed
next
  assume "\<not> buf_len <s 0"
  thus "2 * buf_len <s buf_len \<longleftrightarrow> 2 ^ 31 \<le> 2 * sint buf_len"
    by (rule overflow_check)
qed

theorem string2hex_sentinel_witness:
  "string2hex malloc_ff [1, 2] (- 3) (Some None) (Some 7)
     = Some \<lparr>retval = - 1, hexbuf_out = Some None, hexbuf_len_out = Some 7\<rparr>
   \<and> string2hex malloc_exhausted [] 0 (Some None) (Some 7)
     = Some \<lparr>retval = - 1, hexbuf_out = Some None, hexbuf_len_out = Some 7\<rparr>
   \<and> string2hex malloc_ff [] 0 None (Some 7)
     = Some \<lparr>retval = 0, hexbuf_out = None, hexbuf_len_out = Some 0\<rparr>
   \<and> retval \<lparr>retval = 0 :: cint, hexbuf_out = None, hexbuf_len_out = Some 0\<rparr> \<noteq> - 1
   \<and> (2 * 0x40000000 <s (0x40000000 :: cint))"
proof -
  have a: "(- 3 :: cint) <s 0" by (simp add: word_sless_alt)
  have b: "\<not> (0 :: cint) <s 0" by simp
  have c: "(2 ^ 31 :: int) \<le> 2 * sint (0x40000000 :: cint)" by simp
  have d: "\<not> (0x40000000 :: cint) <s 0" by (simp add: word_sless_alt)
  show ?thesis
    using string2hex_sentinel [of "- 3" malloc_ff "[1, 2]" "Some None" "Some 7"]
      string2hex_sentinel [of 0 malloc_exhausted "[]" "Some None" "Some 7"]
      string2hex_sentinel [of 0 malloc_ff "[]" None "Some 7"]
      string2hex_sentinel [of "0x40000000" malloc_ff "[]" None None]
      a b c d
    by (simp add: malloc_exhausted_def malloc_ff_def string2hex_def)
qed

section \<open>Ruby values, exceptions and the process-wide state\<close>

text \<open>
  A \<^verbatim>\<open>VALUE\<close> is one of the three special constants, a small integer, or a reference to
  an object.  A reference carries the address of the object, so that equality of two
  \<^verbatim>\<open>VALUE\<close>s is the identity test that \<^verbatim>\<open>==\<close> makes in C, and, for the kinds of object
  the code looks into, what the object holds: the bytes of a string, the elements of an
  array, the encoded certificate that an \<^verbatim>\<open>OpenSSL::X509::Certificate\<close> wraps.
\<close>

datatype VALUE =
    Qfalse
  | Qtrue
  | Qnil
  | Fixnum int
  | RString nat string
  | RArray nat "VALUE list"
  | X509Cert nat string
  | RObject nat

text \<open>Exception classes: \<^verbatim>\<open>eOSSLError\<close> of line 215, \<^verbatim>\<open>TypeError\<close>, and any other.\<close>

datatype klass = eOSSLError | rb_eTypeError | rb_eOther nat

datatype exn = Exn klass string

text \<open>
  How a call of a C function of the extension ends: it returns, it leaves through
  \<^verbatim>\<open>rb_exc_raise\<close> (a non-local exit to the nearest handler of the runtime), or it
  has accessed memory outside an array, after which C promises nothing.
\<close>

datatype 'a outcome = Returns 'a | Raises exn | Undefined

datatype mem_ctrl_mode = CRYPTO_MEM_CHECK_OFF | CRYPTO_MEM_CHECK_ON

text \<open>Objects of the native library: a certificate, or a stack of pointers to certificates.\<close>

datatype native_obj = X509 string | STACK_OF_X509 "nat list"

text \<open>
  The process-wide state: the error queue of the native library (the codes, oldest
  first), the debug flag \<^verbatim>\<open>dOSSL\<close> of line 250, the calls of \<^verbatim>\<open>CRYPTO_mem_ctrl\<close> and
  the lines written to \<^verbatim>\<open>stderr\<close> so far, and the native heap, a cell per allocation
  (\<open>None\<close> once freed).
\<close>

record ossl_state =
  err_queue :: "nat list"
  dOSSL :: VALUE
  mem_ctrl_calls :: "mem_ctrl_mode list"
  stderr :: "string list"
  heap :: "native_obj option list"

text \<open>
  What the C library and the native library supply: the constant \<^verbatim>\<open>BUFSIZ\<close> of
  \<^verbatim>\<open>stdio.h\<close>, the two renderings of an error code (\<^verbatim>\<open>ERR_reason_error_string\<close> yields a
  null pointer for a code it has no text for), and whether \<^verbatim>\<open>sk_X509_new_null\<close> finds
  memory.
\<close>

record native_lib =
  BUFSIZ :: nat
  ERR_error_string :: "nat \<Rightarrow> string"
  ERR_reason_error_string :: "nat \<Rightarrow> string option"
  stack_alloc_ok :: bool

definition NUL :: char where
  "NUL = CHR 0x00"

section \<open>Error channel: \<^verbatim>\<open>ossl_raise\<close>\<close>

text \<open>\<^verbatim>\<open>ERR_get_error\<close> removes the oldest code and returns it, or returns 0 for an empty
  queue; \<^verbatim>\<open>ERR_clear_error\<close> empties the queue.\<close>

definition ERR_get_error :: "nat list \<Rightarrow> nat \<times> nat list" where
  "ERR_get_error q = (case q of [] \<Rightarrow> (0, []) | e # q' \<Rightarrow> (e, q'))"

definition ERR_clear_error :: "nat list \<Rightarrow> nat list" where
  "ERR_clear_error q = []"

text \<open>The conversion of the \<^verbatim>\<open>int\<close> expression \<^verbatim>\<open>BUFSIZ-len\<close> to the \<^verbatim>\<open>size_t\<close> parameter of
  \<^verbatim>\<open>snprintf\<close> (64 bits): a negative difference becomes a huge size.\<close>

definition size_t :: "int \<Rightarrow> nat" where
  "size_t k = nat (k mod 2 ^ 64)"

text \<open>
  \<^verbatim>\<open>snprintf(buf + off, sz, "%s", s)\<close> of C99, on the array \<open>buf\<close>; \<^verbatim>\<open>vsnprintf\<close> and
  the call with the format \<^verbatim>\<open>": "\<close> are instances, \<open>s\<close> being the rendered text.  With
  \<open>sz = 0\<close> nothing is written; otherwise at most \<open>sz - 1\<close> characters and a NUL are
  written.  The value returned is the length of the whole of \<open>s\<close>, written or not.  A
  write that would leave the array is \<open>None\<close>.
\<close>

definition snprintf :: "string \<Rightarrow> int \<Rightarrow> nat \<Rightarrow> string \<Rightarrow> (string \<times> int) option" where
  "snprintf buf off sz s =
     (if sz = 0 then Some (buf, int (length s))
      else
        let k = min (length s) (sz - 1) in
        if 0 \<le> off \<and> nat off + k + 1 \<le> length buf then
          Some (take (nat off) buf @ take k s @ [NUL] @ drop (nat off + k + 1) buf,
                int (length s))
        else None)"

text \<open>
  Modelled from the spec: \<^verbatim>\<open>rb_exc_new\<close> (the runtime's \<^verbatim>\<open>error.c\<close> is not among the
  sources) constructs an error of the requested kind carrying the text, here the \<open>len\<close>
  bytes at \<open>buf\<close>.  Reading beyond the array is \<open>None\<close>.
\<close>

definition rb_exc_new :: "klass \<Rightarrow> string \<Rightarrow> int \<Rightarrow> exn option" where
  "rb_exc_new exc buf len =
     (if 0 \<le> len \<and> nat len \<le> length buf then Some (Exn exc (take (nat len) buf)) else None)"

text \<open>
  What the conversion \<^verbatim>\<open>%s\<close> renders for a \<^verbatim>\<open>char *\<close>: the string, or, for a null pointer,
  the text \<^verbatim>\<open>(null)\<close>, as the C library of the host (glibc) prints it.
\<close>

definition percent_s :: "string option \<Rightarrow> string" where
  "percent_s p = (case p of None \<Rightarrow> ''(null)'' | Some s \<Rightarrow> s)"

text \<open>
  Lines 226 to 242 of \<^verbatim>\<open>ossl_raise\<close>: the array \<^verbatim>\<open>buf\<close> and \<^verbatim>\<open>len\<close> as they stand before
  line 244, and the state.  \<open>buf\<close> is the array \<^verbatim>\<open>char buf[BUFSIZ]\<close> as the stack holds it
  on entry; \<open>fmt\<close> is \<open>None\<close> for a null format and otherwise the text that the format
  and its arguments render to.
\<close>

definition ossl_raise_fill ::
  "native_lib \<Rightarrow> string \<Rightarrow> ossl_state \<Rightarrow> string option \<Rightarrow> (string \<times> int) option \<times> ossl_state" where
  "ossl_raise_fill L buf st fmt =
     (let (e, q) = ERR_get_error (err_queue st);
          st1 = st\<lparr>err_queue := q\<rparr>;
          r1 = (case fmt of
                  None \<Rightarrow> Some (buf, 0)
                | Some rendered \<Rightarrow>
                    do {
                      (buf1, len1) \<leftarrow> snprintf buf 0 (BUFSIZ L) rendered;
                      (buf2, n) \<leftarrow> snprintf buf1 len1 (size_t (int (BUFSIZ L) - len1)) '': '';
                      Some (buf2, len1 + n)
                    })
      in if e \<noteq> 0 then
           let msg = (if dOSSL st1 = Qtrue then Some (ERR_error_string L e)
                      else ERR_reason_error_string L e);
               st2 = st1\<lparr>err_queue := ERR_clear_error (err_queue st1)\<rparr>
           in (do {
                 (buf2, len2) \<leftarrow> r1;
                 (buf3, n) \<leftarrow> snprintf buf2 len2 (size_t (int (BUFSIZ L) - len2)) (percent_s msg);
                 Some (buf3, len2 + n)
               }, st2)
         else (r1, st1))"

text \<open>\<^verbatim>\<open>ossl_raise\<close>, lines 220 to 245: it never returns.\<close>

definition ossl_raise ::
  "native_lib \<Rightarrow> string \<Rightarrow> ossl_state \<Rightarrow> klass \<Rightarrow> string option \<Rightarrow> 'a outcome \<times> ossl_state" where
  "ossl_raise L buf st exc fmt =
     (case ossl_raise_fill L buf st fmt of
        (None, st') \<Rightarrow> (Undefined, st')
      | (Some (buf', len), st') \<Rightarrow>
          (case rb_exc_new exc buf' len of
             None \<Rightarrow> (Undefined, st')
           | Some x \<Rightarrow> (Raises x, st')))"

text \<open>
  The text that line 241 appends for the code \<open>e\<close> when the flag holds \<open>d\<close>: \<^verbatim>\<open>msg\<close> of lines
  236 to 239 as \<^verbatim>\<open>%s\<close> renders it.
\<close>

definition error_text :: "native_lib \<Rightarrow> VALUE \<Rightarrow> nat \<Rightarrow> string" where
  "error_text L d e =
     percent_s (if d = Qtrue then Some (ERR_error_string L e) else ERR_reason_error_string L e)"

section \<open>Debug flag\<close>

text \<open>\<^verbatim>\<open>ossl_debug_get\<close> and \<^verbatim>\<open>ossl_debug_set\<close>, lines 268 to 290.\<close>

definition ossl_debug_get :: "ossl_state \<Rightarrow> VALUE" where
  "ossl_debug_get st = dOSSL st"

definition ossl_debug_set :: "ossl_state \<Rightarrow> VALUE \<Rightarrow> VALUE \<times> ossl_state" where
  "ossl_debug_set st val =
     (let old = dOSSL st;
          st1 = st\<lparr>dOSSL := val\<rparr>
      in (val,
          if old \<noteq> dOSSL st1 then
            if dOSSL st1 = Qtrue then
              st1\<lparr>mem_ctrl_calls := mem_ctrl_calls st1 @ [CRYPTO_MEM_CHECK_ON],
                  stderr := stderr st1 @ [''OSSL_DEBUG: IS NOW ON!'' @ [CHR 0x0A]]\<rparr>
            else if old = Qtrue then
              st1\<lparr>mem_ctrl_calls := mem_ctrl_calls st1 @ [CRYPTO_MEM_CHECK_OFF],
                  stderr := stderr st1 @ [''OSSL_DEBUG: IS NOW OFF!'' @ [CHR 0x0A]]\<rparr>
            else st1
          else st1))"

text \<open>
  A library and a state to run the functions on: \<^verbatim>\<open>BUFSIZ\<close> is 8192 as in glibc, one
  error code has texts, and the state is the one \<^verbatim>\<open>Init_openssl\<close> leaves (line 355).
\<close>

definition demo_lib :: native_lib where
  "demo_lib = \<lparr>BUFSIZ = 8192,
                ERR_error_string = (\<lambda>e. ''error:0906D06C:PEM routines:PEM_read_bio:no start line''),
                ERR_reason_error_string = (\<lambda>e. if e = 151441516 then Some ''no start line'' else None),
                stack_alloc_ok = True\<rparr>"

definition st0 :: ossl_state where
  "st0 = \<lparr>err_queue = [], dOSSL = Qfalse, mem_ctrl_calls = [], stderr = [], heap = []\<rparr>"

subsection \<open>Formatting within the buffer\<close>

lemma size_t_diff:
  assumes "off \<le> B" "B < 2 ^ 31"
  shows "size_t (int B - int off) = B - off"
proof -
  have e: "int B - int off = int (B - off)" using assms(1) by (rule of_nat_diff [symmetric])
  have "B - off < 2 ^ 31" using assms(2) by (rule le_less_trans [OF diff_le_self])
  also have "(2::nat) ^ 31 < 2 ^ 64" by (rule power_strict_increasing) simp_all
  finally have "int (B - off) < int (2 ^ 64)" by (rule iffD2 [OF of_nat_less_iff])
  hence lt: "int (B - off) < 2 ^ 64" by (simp only: of_nat_power of_nat_numeral)
  have "int (B - off) mod 2 ^ 64 = int (B - off)"
    using lt by (intro mod_pos_pos_trivial) simp_all
  thus ?thesis unfolding size_t_def e by (simp only: nat_int)
qed

lemma snprintf_append:
  assumes "length xs + length rest = B" "length xs + length s < B" "sz = B - length xs"
  shows "\<exists>rest'. snprintf (xs @ rest) (int (length xs)) sz s = Some ((xs @ s) @ rest', int (length s))
                  \<and> length (xs @ s) + length rest' = B"
proof -
  have k: "min (length s) (sz - 1) = length s" using assms(2,3) by simp
  have nz: "sz \<noteq> 0" using assms(2,3) by simp
  have inb: "nat (int (length xs)) + length s + 1 \<le> length (xs @ rest)"
    using assms(1,2) by simp
  have d: "drop (nat (int (length xs)) + length s + 1) (xs @ rest) = drop (length s + 1) rest"
    by simp
  have "snprintf (xs @ rest) (int (length xs)) sz s
          = Some (take (nat (int (length xs))) (xs @ rest) @ take (length s) s @ [NUL]
                    @ drop (nat (int (length xs)) + length s + 1) (xs @ rest),
                  int (length s))"
    unfolding snprintf_def Let_def k using nz inb by simp
  hence "snprintf (xs @ rest) (int (length xs)) sz s
          = Some ((xs @ s) @ (NUL # drop (length s + 1) rest), int (length s))"
    unfolding d by simp
  moreover have "length (xs @ s) + length (NUL # drop (length s + 1) rest) = B"
    using assms(1,2) by simp
  ultimately show ?thesis by blast
qed

lemma prefix_fits:
  assumes "length buf = B" "length pre + 2 < B" "B < 2 ^ 31"
  shows "\<exists>rest. do { (buf1, len1) \<leftarrow> snprintf buf 0 B pre;
                     (buf2, n) \<leftarrow> snprintf buf1 len1 (size_t (int B - len1)) '': '';
                     Some (buf2, len1 + n) }
                = Some ((pre @ '': '') @ rest, int (length pre + 2))
              \<and> length (pre @ '': '') + length rest = B"
proof -
  from snprintf_append [of "[]" buf B pre B] assms obtain r1 where
    v: "snprintf buf 0 B pre = Some (pre @ r1, int (length pre))"
    and l1: "length pre + length r1 = B"
    by auto
  have sz: "size_t (int B - int (length pre)) = B - length pre"
    using assms by (intro size_t_diff) simp_all
  from snprintf_append [of pre r1 B "'': ''" "B - length pre"] l1 assms obtain r2 where
    w: "snprintf (pre @ r1) (int (length pre)) (B - length pre) '': ''
          = Some ((pre @ '': '') @ r2, int (length '': ''))"
    and l2: "length (pre @ '': '') + length r2 = B"
    by auto
  have "do { (buf1, len1) \<leftarrow> snprintf buf 0 B pre;
             (buf2, n) \<leftarrow> snprintf buf1 len1 (size_t (int B - len1)) '': '';
             Some (buf2, len1 + n) }
        = Some ((pre @ '': '') @ r2, int (length pre + 2))"
    by (simp only: v w sz Option.bind.simps prod.case) simp
  thus ?thesis using l2 by blast
qed

lemma message_fits:
  assumes "length (pre @ '': '') + length rest = B" "length pre + 2 + length m < B" "B < 2 ^ 31"
  shows "\<exists>rest'. snprintf ((pre @ '': '') @ rest) (int (length pre + 2))
                     (size_t (int B - int (length pre + 2))) m
                = Some ((pre @ '': '' @ m) @ rest', int (length m))
              \<and> length (pre @ '': '' @ m) + length rest' = B"
proof -
  have sz: "size_t (int B - int (length pre + 2)) = B - (length pre + 2)"
    using assms by (intro size_t_diff) simp_all
  have len: "length (pre @ '': '') = length pre + 2" by simp
  from snprintf_append [of "pre @ '': ''" rest B m "B - (length pre + 2)"] assms obtain r3 where
    "snprintf ((pre @ '': '') @ rest) (int (length (pre @ '': ''))) (B - (length pre + 2)) m
          = Some (((pre @ '': '') @ m) @ r3, int (length m))"
    and "length ((pre @ '': '') @ m) + length r3 = B"
    by auto
  thus ?thesis unfolding sz len by auto
qed

lemma rb_exc_new_prefix:
  "rb_exc_new exc (xs @ rest) (int (length xs)) = Some (Exn exc xs)"
  by (simp add: rb_exc_new_def)

lemma ossl_raise_no_error:
  assumes "length buf = BUFSIZ L" "BUFSIZ L < 2 ^ 31" "length pre + 2 < BUFSIZ L"
    and "err_queue st = []"
  shows "ossl_raise L buf st exc (Some pre) = (Raises (Exn exc (pre @ '': '')), st)"
proof -
  from prefix_fits [OF assms(1) assms(3) assms(2)] obtain rest where
    p: "do { (buf1, len1) \<leftarrow> snprintf buf 0 (BUFSIZ L) pre;
             (buf2, n) \<leftarrow> snprintf buf1 len1 (size_t (int (BUFSIZ L) - len1)) '': '';
             Some (buf2, len1 + n) }
        = Some ((pre @ '': '') @ rest, int (length pre + 2))"
    by blast
  have same: "st\<lparr>err_queue := []\<rparr> = st" using assms(4) by (cases st) simp
  have "ossl_raise_fill L buf st (Some pre)
          = (Some ((pre @ '': '') @ rest, int (length (pre @ '': ''))), st)"
    unfolding ossl_raise_fill_def ERR_get_error_def assms(4)
    by (simp only: list.case prod.case Let_def option.case p same) simp
  thus ?thesis unfolding ossl_raise_def
    by (simp only: prod.case option.case rb_exc_new_prefix)
qed


lemma ossl_raise_with_error:
  assumes "length buf = BUFSIZ L" "BUFSIZ L < 2 ^ 31"
    and "err_queue st = e # q" "e \<noteq> 0"
    and "length pre + 2 + length (error_text L (dOSSL st) e) < BUFSIZ L"
  shows "ossl_raise L buf st exc (Some pre)
           = (Raises (Exn exc (pre @ '': '' @ error_text L (dOSSL st) e)),
              st\<lparr>err_queue := []\<rparr>)"
proof -
  define m where "m = error_text L (dOSSL st) e"
  have fit: "length pre + 2 + length m < BUFSIZ L" using assms(5) by (simp add: m_def)
  have p2: "length pre + 2 < BUFSIZ L" using fit by simp
  from prefix_fits [OF assms(1) p2 assms(2)] obtain rest where
    p: "do { (buf1, len1) \<leftarrow> snprintf buf 0 (BUFSIZ L) pre;
             (buf2, n) \<leftarrow> snprintf buf1 len1 (size_t (int (BUFSIZ L) - len1)) '': '';
             Some (buf2, len1 + n) }
        = Some ((pre @ '': '') @ rest, int (length pre + 2))"
    and l: "length (pre @ '': '') + length rest = BUFSIZ L"
    by blast
  from message_fits [OF l fit assms(2)] obtain rest' where
    m: "snprintf ((pre @ '': '') @ rest) (int (length pre + 2))
          (size_t (int (BUFSIZ L) - int (length pre + 2))) m
        = Some ((pre @ '': '' @ m) @ rest', int (length m))"
    by blast
  have d: "percent_s (if dOSSL (st\<lparr>err_queue := q\<rparr>) = Qtrue then Some (ERR_error_string L e)
                      else ERR_reason_error_string L e) = m"
    by (simp add: m_def error_text_def)
  have c: "st\<lparr>err_queue := q\<rparr>\<lparr>err_queue := ERR_clear_error (err_queue (st\<lparr>err_queue := q\<rparr>))\<rparr>
             = st\<lparr>err_queue := []\<rparr>"
    by (simp add: ERR_clear_error_def)
  have len: "int (length pre + 2) + int (length m) = int (length (pre @ '': '' @ m))" by simp
  have "ossl_raise_fill L buf st (Some pre)
          = (Some ((pre @ '': '' @ m) @ rest', int (length (pre @ '': '' @ m))),
             st\<lparr>err_queue := []\<rparr>)"
    unfolding ossl_raise_fill_def ERR_get_error_def assms(3)
    by (simp only: list.case prod.case Let_def option.case p d c assms(4) if_True
          Option.bind.simps m len) simp
  thus ?thesis unfolding ossl_raise_def m_def [symmetric]
    by (simp only: prod.case option.case rb_exc_new_prefix)
qed

subsection \<open>The message of the raised error\<close>

text \<open>
  With the prefix \<^verbatim>\<open>"x"\<close> and an empty error queue the message is \<^verbatim>\<open>"x: "\<close>: line 233
  appends the separator whenever a format is given, before the queue is looked at.
\<close>

theorem ossl_raise_message_counterexample:
  "err_queue st0 = []
   \<and> ossl_raise demo_lib (replicate 8192 NUL) st0 eOSSLError (Some ''x'')
       = (Raises (Exn eOSSLError ''x: '') :: unit outcome, st0)
   \<and> ''x: '' \<noteq> ''x''"
proof -
  have "ossl_raise demo_lib (replicate 8192 NUL) st0 eOSSLError (Some ''x'')
          = (Raises (Exn eOSSLError (''x'' @ '': '')) :: unit outcome, st0)"
    by (rule ossl_raise_no_error) (simp_all add: demo_lib_def st0_def)
  thus ?thesis by (simp add: st0_def)
qed

text \<open>
  C4, amended.  For a call of \<^verbatim>\<open>ossl_raise\<close> with a prefix format, on a buffer of \<^verbatim>\<open>BUFSIZ\<close>
  bytes (\<^verbatim>\<open>BUFSIZ\<close> below \<open>2\<^sup>3\<^sup>1\<close>), whose rendering, the separator and the appended text fit the
  buffer with its terminator: the message of the raised error is the rendered prefix
  followed by \<^verbatim>\<open>": "\<close> and, when a native error entry existed at entry, by the native
  error message; with no native error entry it is the rendered prefix followed by the
  separator.  The appended text is the full diagnostic text exactly when the debug flag
  is \<^verbatim>\<open>Qtrue\<close>, and otherwise the short reason string, or the text \<^verbatim>\<open>(null)\<close> when the
  library has no reason string for the code.  An entry that existed is consumed and the
  queue cleared.
\<close>

theorem ossl_raise_message:
  assumes "length buf = BUFSIZ L" "BUFSIZ L < 2 ^ 31"
  shows "(err_queue st = [] \<and> length pre + 2 < BUFSIZ L \<longrightarrow>
            ossl_raise L buf st exc (Some pre) = (Raises (Exn exc (pre @ '': '')), st))
       \<and> (\<forall>e q. err_queue st = e # q \<and> e \<noteq> 0 \<and> dOSSL st = Qtrue
               \<and> length pre + 2 + length (ERR_error_string L e) < BUFSIZ L \<longrightarrow>
            ossl_raise L buf st exc (Some pre)
              = (Raises (Exn exc (pre @ '': '' @ ERR_error_string L e)), st\<lparr>err_queue := []\<rparr>))
       \<and> (\<forall>e q. err_queue st = e # q \<and> e \<noteq> 0 \<and> dOSSL st \<noteq> Qtrue
               \<and> length pre + 2
                    + length (case ERR_reason_error_string L e of None \<Rightarrow> ''(null)'' | Some r \<Rightarrow> r)
                  < BUFSIZ L \<longrightarrow>
            ossl_raise L buf st exc (Some pre)
              = (Raises (Exn exc (pre @ '': ''
                    @ (case ERR_reason_error_string L e of None \<Rightarrow> ''(null)'' | Some r \<Rightarrow> r))),
                 st\<lparr>err_queue := []\<rparr>))"
proof (intro conjI allI impI)
  assume "err_queue st = [] \<and> length pre + 2 < BUFSIZ L"
  thus "ossl_raise L buf st exc (Some pre) = (Raises (Exn exc (pre @ '': '')), st)"
    using assms by (intro ossl_raise_no_error) simp_all
next
  fix e q
  assume h: "err_queue st = e # q \<and> e \<noteq> 0 \<and> dOSSL st = Qtrue
               \<and> length pre + 2 + length (ERR_error_string L e) < BUFSIZ L"
  hence t: "error_text L (dOSSL st) e = ERR_error_string L e"
    by (simp add: error_text_def percent_s_def)
  from h have "length pre + 2 + length (ERR_error_string L e) < BUFSIZ L" by simp
  hence fit: "length pre + 2 + length (error_text L (dOSSL st) e) < BUFSIZ L"
    by (simp only: t)
  have "ossl_raise L buf st exc (Some pre)
          = (Raises (Exn exc (pre @ '': '' @ error_text L (dOSSL st) e)), st\<lparr>err_queue := []\<rparr>)"
    using h by (intro ossl_raise_with_error [where e = e and q = q, OF assms _ _ fit]) simp_all
  thus "ossl_raise L buf st exc (Some pre)
              = (Raises (Exn exc (pre @ '': '' @ ERR_error_string L e)), st\<lparr>err_queue := []\<rparr>)"
    by (simp only: t)
next
  fix e q
  let ?r = "case ERR_reason_error_string L e of None \<Rightarrow> ''(null)'' | Some r \<Rightarrow> r"
  assume h: "err_queue st = e # q \<and> e \<noteq> 0 \<and> dOSSL st \<noteq> Qtrue
               \<and> length pre + 2 + length ?r < BUFSIZ L"
  hence t: "error_text L (dOSSL st) e = ?r"
    by (simp add: error_text_def percent_s_def)
  from h have "length pre + 2 + length ?r < BUFSIZ L" by simp
  hence fit: "length pre + 2 + length (error_text L (dOSSL st) e) < BUFSIZ L"
    by (simp only: t)
  have "ossl_raise L buf st exc (Some pre)
          = (Raises (Exn exc (pre @ '': '' @ error_text L (dOSSL st) e)), st\<lparr>err_queue := []\<rparr>)"
    using h by (intro ossl_raise_with_error [where e = e and q = q, OF assms _ _ fit]) simp_all
  thus "ossl_raise L buf st exc (Some pre)
              = (Raises (Exn exc (pre @ '': '' @ ?r)), st\<lparr>err_queue := []\<rparr>)"
    by (simp only: t)
qed

text \<open>
  The cases on the demonstration library: no entry, an entry with the flag set, an entry
  with the flag clear, and an entry whose code (7) has no reason string.
\<close>

theorem ossl_raise_message_witness:
  "length (replicate 8192 NUL) = BUFSIZ demo_lib \<and> BUFSIZ demo_lib < 2 ^ 31
   \<and> ossl_raise demo_lib (replicate 8192 NUL) st0 eOSSLError (Some ''PEM_read'')
       = (Raises (Exn eOSSLError ''PEM_read: '') :: unit outcome, st0)
   \<and> ossl_raise demo_lib (replicate 8192 NUL) (st0\<lparr>err_queue := [151441516], dOSSL := Qtrue\<rparr>)
         eOSSLError (Some ''PEM_read'')
       = (Raises (Exn eOSSLError
            ''PEM_read: error:0906D06C:PEM routines:PEM_read_bio:no start line'') :: unit outcome,
          st0\<lparr>dOSSL := Qtrue\<rparr>)
   \<and> ossl_raise demo_lib (replicate 8192 NUL) (st0\<lparr>err_queue := [151441516]\<rparr>)
         eOSSLError (Some ''PEM_read'')
       = (Raises (Exn eOSSLError ''PEM_read: no start line'') :: unit outcome, st0)
   \<and> ERR_reason_error_string demo_lib 7 = None
   \<and> ossl_raise demo_lib (replicate 8192 NUL) (st0\<lparr>err_queue := [7]\<rparr>)
         eOSSLError (Some ''PEM_read'')
       = (Raises (Exn eOSSLError ''PEM_read: (null)'') :: unit outcome, st0)"
proof -
  have a: "length (replicate 8192 NUL) = BUFSIZ demo_lib" by (simp add: demo_lib_def)
  have b: "BUFSIZ demo_lib < 2 ^ 31" by (simp add: demo_lib_def)
  note t = ossl_raise_message [OF a b, where exc = eOSSLError and pre = "''PEM_read''"]
  have "ossl_raise demo_lib (replicate 8192 NUL) st0 eOSSLError (Some ''PEM_read'')
       = (Raises (Exn eOSSLError ''PEM_read: '') :: unit outcome, st0)"
    using t [where st = st0] by (simp add: demo_lib_def st0_def)
  moreover have "ossl_raise demo_lib (replicate 8192 NUL)
         (st0\<lparr>err_queue := [151441516], dOSSL := Qtrue\<rparr>) eOSSLError (Some ''PEM_read'')
       = (Raises (Exn eOSSLError
            ''PEM_read: error:0906D06C:PEM routines:PEM_read_bio:no start line'') :: unit outcome,
          st0\<lparr>dOSSL := Qtrue\<rparr>)"
    using t [where st = "st0\<lparr>err_queue := [151441516], dOSSL := Qtrue\<rparr>"]
    by (simp add: demo_lib_def st0_def)
  moreover have "ossl_raise demo_lib (replicate 8192 NUL) (st0\<lparr>err_queue := [151441516]\<rparr>)
         eOSSLError (Some ''PEM_read'')
       = (Raises (Exn eOSSLError ''PEM_read: no start line'') :: unit outcome, st0)"
    using t [where st = "st0\<lparr>err_queue := [151441516]\<rparr>"]
    by (simp add: demo_lib_def st0_def)
  moreover have "ERR_reason_error_string demo_lib 7 = None" by (simp add: demo_lib_def)
  moreover have "ossl_raise demo_lib (replicate 8192 NUL) (st0\<lparr>err_queue := [7]\<rparr>)
         eOSSLError (Some ''PEM_read'')
       = (Raises (Exn eOSSLError ''PEM_read: (null)'') :: unit outcome, st0)"
    using t [where st = "st0\<lparr>err_queue := [7]\<rparr>"]
    by (simp add: demo_lib_def st0_def)
  ultimately show ?thesis using a b by blast
qed


subsection \<open>Prefixes that fill the buffer\<close>

lemma size_t_one: "size_t 1 = 1"
  by (simp add: size_t_def)

lemma size_t_minus_one: "size_t (- 1) = 2 ^ 64 - 1"
  by (simp add: size_t_def)

text \<open>
  C5.  The claim is that \<^verbatim>\<open>ossl_raise\<close> keeps every write inside \<^verbatim>\<open>buf\<close> and never hands
  \<^verbatim>\<open>rb_exc_new\<close> a length above \<^verbatim>\<open>BUFSIZ\<close>.  The code adds up the values returned by
  \<^verbatim>\<open>vsnprintf\<close> and \<^verbatim>\<open>snprintf\<close>, which are the lengths asked for, not the lengths
  written.  With a prefix of 8191 characters and no native error every write stays
  inside the 8192 bytes, but \<^verbatim>\<open>len\<close> is 8193 at line 244, so that \<^verbatim>\<open>rb_exc_new\<close> reads
  past the array.  With a prefix of 8193 characters \<^verbatim>\<open>len\<close> is 8193 after line 231,
  \<^verbatim>\<open>BUFSIZ-len\<close> is negative, and line 233 writes the separator at \<^verbatim>\<open>buf+8193\<close>.
\<close>

theorem ossl_raise_overrun:
  "ossl_raise_fill demo_lib (replicate 8192 NUL) st0 (Some (replicate 8191 (CHR ''A'')))
     = (Some (replicate 8191 (CHR ''A'') @ [NUL], 8193), st0)
   \<and> int (BUFSIZ demo_lib) < 8193
   \<and> ossl_raise demo_lib (replicate 8192 NUL) st0 eOSSLError (Some (replicate 8191 (CHR ''A'')))
       = (Undefined :: unit outcome, st0)
   \<and> ossl_raise_fill demo_lib (replicate 8192 NUL) st0 (Some (replicate 8193 (CHR ''A'')))
       = (None, st0)"
proof -
  have v: "snprintf (replicate 8192 NUL) 0 8192 (replicate 8191 (CHR ''A''))
             = Some (replicate 8191 (CHR ''A'') @ [NUL], 8191)"
    by (simp add: snprintf_def)
  have w: "snprintf (replicate 8191 (CHR ''A'') @ [NUL]) 8191 (size_t 1) '': ''
             = Some (replicate 8191 (CHR ''A'') @ [NUL], 2)"
    by (simp add: snprintf_def size_t_one)
  have same: "st0\<lparr>err_queue := []\<rparr> = st0" by (simp add: st0_def)
  have f: "ossl_raise_fill demo_lib (replicate 8192 NUL) st0 (Some (replicate 8191 (CHR ''A'')))
     = (Some (replicate 8191 (CHR ''A'') @ [NUL], 8193), st0)"
    by (simp add: ossl_raise_fill_def ERR_get_error_def demo_lib_def v w same)
       (simp add: st0_def)
  have r: "ossl_raise demo_lib (replicate 8192 NUL) st0 eOSSLError (Some (replicate 8191 (CHR ''A'')))
       = (Undefined :: unit outcome, st0)"
    by (simp add: ossl_raise_def f rb_exc_new_def)
  have v2: "snprintf (replicate 8192 NUL) 0 8192 (replicate 8193 (CHR ''A''))
             = Some (replicate 8191 (CHR ''A'') @ [NUL], 8193)"
    by (simp add: snprintf_def)
  have w2: "snprintf (replicate 8191 (CHR ''A'') @ [NUL]) 8193 (size_t (- 1)) '': '' = None"
    by (simp add: snprintf_def size_t_minus_one)
  have g: "ossl_raise_fill demo_lib (replicate 8192 NUL) st0 (Some (replicate 8193 (CHR ''A'')))
       = (None, st0)"
    by (simp add: ossl_raise_fill_def ERR_get_error_def demo_lib_def v2 w2 same)
       (simp add: st0_def)
  show ?thesis using f r g by (simp add: demo_lib_def)
qed


section \<open>The debug flag and the error channel\<close>

lemma ossl_raise_fill_flag:
  assumes "(dOSSL st = Qtrue) = (dOSSL st' = Qtrue)" "err_queue st = err_queue st'"
  shows "fst (ossl_raise_fill L buf st fmt) = fst (ossl_raise_fill L buf st' fmt)"
  using assms by (simp add: ossl_raise_fill_def Let_def split: prod.splits)

lemma ossl_raise_flag:
  assumes "(dOSSL st = Qtrue) = (dOSSL st' = Qtrue)" "err_queue st = err_queue st'"
  shows "fst (ossl_raise L buf st exc fmt) = fst (ossl_raise L buf st' exc fmt)"
proof -
  obtain r s where a: "ossl_raise_fill L buf st fmt = (r, s)" by (cases "ossl_raise_fill L buf st fmt")
  obtain r' s' where b: "ossl_raise_fill L buf st' fmt = (r', s')"
    by (cases "ossl_raise_fill L buf st' fmt")
  have "r = r'" using ossl_raise_fill_flag [OF assms, of L buf fmt] a b by simp
  thus ?thesis unfolding ossl_raise_def a b by (simp split: option.splits prod.splits)
qed

text \<open>
  C9.  \<^verbatim>\<open>ossl_debug_set\<close> returns the value it is given and stores it as it is.  The
  allocator instrumentation is switched on exactly when the new value is \<^verbatim>\<open>Qtrue\<close> and
  the old one was not, and switched off exactly when the old value was \<^verbatim>\<open>Qtrue\<close> and the
  new one is not; a value other than \<^verbatim>\<open>Qtrue\<close> set over a value other than \<^verbatim>\<open>Qtrue\<close>
  changes the flag and nothing else.  After a value other than \<^verbatim>\<open>Qtrue\<close> has been set,
  an integer for instance, \<^verbatim>\<open>ossl_raise\<close> raises what it raises with the flag \<^verbatim>\<open>Qfalse\<close>:
  the short message.
\<close>

theorem ossl_debug_set_verbatim:
  "fst (ossl_debug_set st val) = val
   \<and> ossl_debug_get (snd (ossl_debug_set st val)) = val
   \<and> (mem_ctrl_calls (snd (ossl_debug_set st val)) = mem_ctrl_calls st @ [CRYPTO_MEM_CHECK_ON]
        \<longleftrightarrow> val = Qtrue \<and> dOSSL st \<noteq> Qtrue)
   \<and> (mem_ctrl_calls (snd (ossl_debug_set st val)) = mem_ctrl_calls st @ [CRYPTO_MEM_CHECK_OFF]
        \<longleftrightarrow> dOSSL st = Qtrue \<and> val \<noteq> Qtrue)
   \<and> (val \<noteq> Qtrue \<and> dOSSL st \<noteq> Qtrue \<longrightarrow> snd (ossl_debug_set st val) = st\<lparr>dOSSL := val\<rparr>)
   \<and> (val \<noteq> Qtrue \<longrightarrow>
        fst (ossl_raise L buf (snd (ossl_debug_set st val)) exc fmt)
          = fst (ossl_raise L buf (st\<lparr>dOSSL := Qfalse\<rparr>) exc fmt))"
proof (intro conjI impI)
  show "fst (ossl_debug_set st val) = val" by (simp add: ossl_debug_set_def Let_def)
  show "ossl_debug_get (snd (ossl_debug_set st val)) = val"
    by (simp add: ossl_debug_set_def ossl_debug_get_def Let_def)
  show "mem_ctrl_calls (snd (ossl_debug_set st val)) = mem_ctrl_calls st @ [CRYPTO_MEM_CHECK_ON]
        \<longleftrightarrow> val = Qtrue \<and> dOSSL st \<noteq> Qtrue"
    by (auto simp add: ossl_debug_set_def Let_def)
  show "mem_ctrl_calls (snd (ossl_debug_set st val)) = mem_ctrl_calls st @ [CRYPTO_MEM_CHECK_OFF]
        \<longleftrightarrow> dOSSL st = Qtrue \<and> val \<noteq> Qtrue"
    by (auto simp add: ossl_debug_set_def Let_def)
next
  assume "val \<noteq> Qtrue \<and> dOSSL st \<noteq> Qtrue"
  thus "snd (ossl_debug_set st val) = st\<lparr>dOSSL := val\<rparr>"
    by (simp add: ossl_debug_set_def Let_def)
next
  assume v: "val \<noteq> Qtrue"
  have "dOSSL (snd (ossl_debug_set st val)) \<noteq> Qtrue"
    using v by (simp add: ossl_debug_set_def Let_def)
  moreover have "err_queue (snd (ossl_debug_set st val)) = err_queue st"
    by (simp add: ossl_debug_set_def Let_def)
  ultimately show "fst (ossl_raise L buf (snd (ossl_debug_set st val)) exc fmt)
          = fst (ossl_raise L buf (st\<lparr>dOSSL := Qfalse\<rparr>) exc fmt)"
    by (intro ossl_raise_flag) simp_all
qed

text \<open>Setting the integer 1 on the demonstration state, then raising.\<close>

theorem ossl_debug_set_verbatim_witness:
  "ossl_debug_set (st0\<lparr>err_queue := [151441516]\<rparr>) (Fixnum 1)
     = (Fixnum 1, st0\<lparr>err_queue := [151441516], dOSSL := Fixnum 1\<rparr>)
   \<and> Fixnum 1 \<noteq> Qtrue \<and> dOSSL (st0\<lparr>err_queue := [151441516]\<rparr>) \<noteq> Qtrue
   \<and> fst (ossl_raise demo_lib (replicate 8192 NUL)
            (snd (ossl_debug_set (st0\<lparr>err_queue := [151441516]\<rparr>) (Fixnum 1)))
            eOSSLError (Some ''PEM_read''))
       = (Raises (Exn eOSSLError ''PEM_read: no start line'') :: unit outcome)
   \<and> mem_ctrl_calls (snd (ossl_debug_set (st0\<lparr>dOSSL := Qtrue\<rparr>) (Fixnum 1)))
       = [CRYPTO_MEM_CHECK_OFF]"
proof -
  define s where "s = st0\<lparr>err_queue := [151441516]\<rparr>"
  have f: "Fixnum 1 \<noteq> Qtrue" by simp
  have d: "dOSSL s \<noteq> Qtrue" by (simp add: s_def st0_def)
  note t = ossl_debug_set_verbatim [where ?'a = unit, of s "Fixnum 1" demo_lib
      "replicate 8192 NUL" eOSSLError "Some ''PEM_read''"]
  have a: "ossl_debug_set s (Fixnum 1) = (Fixnum 1, s\<lparr>dOSSL := Fixnum 1\<rparr>)"
    using t f d by (metis prod.collapse)
  have e: "error_text demo_lib (dOSSL (s\<lparr>dOSSL := Qfalse\<rparr>)) 151441516 = ''no start line''"
    by (simp add: error_text_def percent_s_def demo_lib_def)
  have "ossl_raise demo_lib (replicate 8192 NUL) (s\<lparr>dOSSL := Qfalse\<rparr>) eOSSLError
          (Some ''PEM_read'')
        = (Raises (Exn eOSSLError (''PEM_read'' @ '': ''
              @ error_text demo_lib (dOSSL (s\<lparr>dOSSL := Qfalse\<rparr>)) 151441516)) :: unit outcome,
           s\<lparr>dOSSL := Qfalse\<rparr>\<lparr>err_queue := []\<rparr>)"
    by (rule ossl_raise_with_error [where e = 151441516 and q = "[]"])
       (simp_all only: e, simp_all add: s_def st0_def demo_lib_def)
  hence "ossl_raise demo_lib (replicate 8192 NUL) (s\<lparr>dOSSL := Qfalse\<rparr>) eOSSLError
          (Some ''PEM_read'')
        = (Raises (Exn eOSSLError (''PEM_read'' @ '': '' @ ''no start line'')) :: unit outcome,
           s\<lparr>dOSSL := Qfalse\<rparr>\<lparr>err_queue := []\<rparr>)"
    by (simp only: e)
  hence b: "fst (ossl_raise demo_lib (replicate 8192 NUL) (snd (ossl_debug_set s (Fixnum 1)))
            eOSSLError (Some ''PEM_read''))
       = (Raises (Exn eOSSLError ''PEM_read: no start line'') :: unit outcome)"
    using t f by simp
  have m0: "mem_ctrl_calls st0 = []" by (simp add: st0_def)
  have c: "mem_ctrl_calls (snd (ossl_debug_set (st0\<lparr>dOSSL := Qtrue\<rparr>) (Fixnum 1)))
       = [CRYPTO_MEM_CHECK_OFF]"
    using ossl_debug_set_verbatim [where ?'a = unit, of "st0\<lparr>dOSSL := Qtrue\<rparr>" "Fixnum 1"
        demo_lib "[]" eOSSLError None] m0
    by simp
  show ?thesis using a b c f d unfolding s_def by simp
qed

section \<open>Protected invocation\<close>

text \<open>
  Modelled from the spec: \<^verbatim>\<open>rb_protect\<close> (the runtime's \<^verbatim>\<open>eval.c\<close> is not among the
  sources) invokes the function under an exception barrier; if it raises, the barrier
  captures the exception and a failed status instead of letting it unwind further.
  The argument is what the invocation did; the result is the value handed back (\<^verbatim>\<open>Qnil\<close>
  on failure) and the status stored through the \<^verbatim>\<open>int *\<close>, zero on success and the
  nonzero tag of a raise on failure.
\<close>

definition TAG_RAISE :: int where
  "TAG_RAISE = 6"

definition rb_protect :: "exn + VALUE \<Rightarrow> VALUE \<times> int" where
  "rb_protect r = (case r of Inr v \<Rightarrow> (v, 0) | Inl e \<Rightarrow> (Qnil, TAG_RAISE))"

text \<open>
  Modelled from the spec: \<^verbatim>\<open>rb_ensure\<close> (also of \<^verbatim>\<open>eval.c\<close>) runs the body; whether or
  not the body raises, it invokes the cleanup exactly once before the body's outcome,
  return or exception, is delivered to the caller.
\<close>

definition rb_ensure :: "('w \<Rightarrow> (exn + VALUE) \<times> 'w) \<Rightarrow> ('w \<Rightarrow> 'w) \<Rightarrow> 'w \<Rightarrow> (exn + VALUE) \<times> 'w" where
  "rb_ensure b_proc e_proc w = (case b_proc w of (r, w1) \<Rightarrow> (r, e_proc w1))"

section \<open>Verification callback: \<^verbatim>\<open>ossl_verify_cb\<close>\<close>

definition X509_V_OK :: int where
  "X509_V_OK = 0"

definition X509_V_ERR_CERT_REJECTED :: int where
  "X509_V_ERR_CERT_REJECTED = 28"

text \<open>
  The native verification context, as far as the callback looks at it: the slot
  \<^verbatim>\<open>ossl_verify_cb_idx\<close> of its side table and of the side table of its store
  \<^verbatim>\<open>ctx->ctx\<close> (\<open>None\<close> is the null pointer), and the error code.
\<close>

record X509_STORE_CTX =
  ctx_ex_data :: "VALUE option"
  store_ex_data :: "VALUE option"
  verify_error :: int

text \<open>The context together with the wrappers whose native pointer has been cleared.\<close>

record verify_world =
  native_ctx :: X509_STORE_CTX
  cleared_wrappers :: "VALUE list"

text \<open>
  The managed side of the callback.  Modelled from the spec: \<^verbatim>\<open>ossl_x509stctx_new\<close>
  (in \<^verbatim>\<open>ossl_x509store.c\<close>, not among the sources) constructs a wrapper object exposing
  the native store context to managed code, and may raise.  \<open>proc_call p ok rctx\<close> is
  what \<^verbatim>\<open>p.call(ok, rctx)\<close> does: it returns a value or raises, and may have changed the
  context through the wrapper.
\<close>

record ruby_side =
  ossl_x509stctx_new :: "X509_STORE_CTX \<Rightarrow> exn + VALUE"
  proc_call :: "VALUE \<Rightarrow> VALUE \<Rightarrow> VALUE \<Rightarrow> verify_world \<Rightarrow> (exn + VALUE) \<times> verify_world"

text \<open>\<^verbatim>\<open>struct ossl_verify_cb_args\<close>.\<close>

record ossl_verify_cb_args =
  args_proc :: VALUE
  args_preverify_ok :: VALUE
  args_store_ctx :: VALUE

definition X509_STORE_CTX_get_ex_data :: "X509_STORE_CTX \<Rightarrow> VALUE option" where
  "X509_STORE_CTX_get_ex_data ctx = ctx_ex_data ctx"

definition X509_STORE_get_ex_data :: "X509_STORE_CTX \<Rightarrow> VALUE option" where
  "X509_STORE_get_ex_data ctx = store_ex_data ctx"

definition X509_STORE_CTX_get_error :: "verify_world \<Rightarrow> int" where
  "X509_STORE_CTX_get_error w = verify_error (native_ctx w)"

definition X509_STORE_CTX_set_error :: "verify_world \<Rightarrow> int \<Rightarrow> verify_world" where
  "X509_STORE_CTX_set_error w e = w\<lparr>native_ctx := (native_ctx w)\<lparr>verify_error := e\<rparr>\<rparr>"

text \<open>
  The test \<^verbatim>\<open>(void*)proc == 0\<close> of lines 177 and 179: the slot is empty, or it holds
  \<^verbatim>\<open>Qfalse\<close>, which \<^verbatim>\<open>ruby.h\<close> defines as the \<^verbatim>\<open>VALUE\<close> 0.
\<close>

definition is_null :: "VALUE option \<Rightarrow> bool" where
  "is_null p = (p = None \<or> p = Some Qfalse)"

text \<open>Lines 176 to 178: the closure of the context, or else that of its store.\<close>

definition verify_cb_proc :: "X509_STORE_CTX \<Rightarrow> VALUE option" where
  "verify_cb_proc ctx =
     (let proc = X509_STORE_CTX_get_ex_data ctx
      in if is_null proc then X509_STORE_get_ex_data ctx else proc)"

text \<open>\<^verbatim>\<open>ossl_call_verify_cb_proc\<close>, lines 162 to 167.\<close>

definition ossl_call_verify_cb_proc ::
  "ruby_side \<Rightarrow> ossl_verify_cb_args \<Rightarrow> verify_world \<Rightarrow> (exn + VALUE) \<times> verify_world" where
  "ossl_call_verify_cb_proc R args w =
     proc_call R (args_proc args) (args_preverify_ok args) (args_store_ctx args) w"

text \<open>
  Modelled from the spec: \<^verbatim>\<open>ossl_x509stctx_clear_ptr\<close> (in \<^verbatim>\<open>ossl_x509store.c\<close>)
  detaches the wrapper from the native pointer.
\<close>

definition ossl_x509stctx_clear_ptr :: "VALUE \<Rightarrow> verify_world \<Rightarrow> verify_world" where
  "ossl_x509stctx_clear_ptr rctx w = w\<lparr>cleared_wrappers := cleared_wrappers w @ [rctx]\<rparr>"

text \<open>Lines 192 to 201: what the callback makes of \<^verbatim>\<open>ret\<close>.\<close>

definition verify_verdict :: "VALUE \<Rightarrow> verify_world \<Rightarrow> int outcome \<times> verify_world" where
  "verify_verdict ret w =
     (if ret = Qtrue then (Returns 1, X509_STORE_CTX_set_error w X509_V_OK)
      else (Returns 0,
            if X509_STORE_CTX_get_error w = X509_V_OK
            then X509_STORE_CTX_set_error w X509_V_ERR_CERT_REJECTED
            else w))"

text \<open>
  \<^verbatim>\<open>ossl_verify_cb\<close>, lines 169 to 205.  An exception that \<^verbatim>\<open>rb_ensure\<close> delivers is not
  caught in this function: it leaves the callback, and nothing after line 190 runs.
\<close>

definition ossl_verify_cb :: "ruby_side \<Rightarrow> int \<Rightarrow> verify_world \<Rightarrow> int outcome \<times> verify_world" where
  "ossl_verify_cb R ok w =
     (let ctx = native_ctx w;
          proc = verify_cb_proc ctx
      in if is_null proc then (Returns ok, w)
         else if the proc \<noteq> Qnil then
           let (rctx, state) = rb_protect (ossl_x509stctx_new R ctx) in
           if state = 0 then
             let args = \<lparr>args_proc = the proc,
                         args_preverify_ok = (if ok \<noteq> 0 then Qtrue else Qfalse),
                         args_store_ctx = rctx\<rparr>
             in case rb_ensure (ossl_call_verify_cb_proc R args)
                       (ossl_x509stctx_clear_ptr rctx) w of
                  (Inl e, w') \<Rightarrow> (Raises e, w')
                | (Inr ret, w') \<Rightarrow> verify_verdict ret w'
           else verify_verdict Qfalse w
         else (Returns ok, w))"

text \<open>A managed side to run the callback on: the closure at address 1 accepts, the one
  at address 2 raises, any other rejects with the value \<^verbatim>\<open>false\<close>.\<close>

definition demo_ruby :: ruby_side where
  "demo_ruby =
     \<lparr>ossl_x509stctx_new = (\<lambda>ctx. Inr (RObject 7)),
      proc_call = (\<lambda>p ok rctx w.
         if p = RObject 1 then (Inr Qtrue, w)
         else if p = RObject 2 then (Inl (Exn (rb_eOther 0) ''no''), w)
         else (Inr Qfalse, w))\<rparr>"

definition demo_ctx :: "VALUE option \<Rightarrow> VALUE option \<Rightarrow> int \<Rightarrow> verify_world" where
  "demo_ctx c s e =
     \<lparr>native_ctx = \<lparr>ctx_ex_data = c, store_ex_data = s, verify_error = e\<rparr>,
      cleared_wrappers = []\<rparr>"

subsection \<open>No closure\<close>

text \<open>
  C8.  If neither the verification context nor its store has a closure in the slot
  (each slot is null), or the closure found is \<^verbatim>\<open>nil\<close>, \<^verbatim>\<open>ossl_verify_cb\<close> returns the
  value \<^verbatim>\<open>ok\<close> it was given, whatever it is, and leaves the context, its error code
  included, as it was.
\<close>

theorem ossl_verify_cb_passthrough:
  assumes "is_null (ctx_ex_data (native_ctx w)) \<and> is_null (store_ex_data (native_ctx w))
           \<or> verify_cb_proc (native_ctx w) = Some Qnil"
  shows "ossl_verify_cb R ok w = (Returns ok, w)"
proof -
  have "is_null (verify_cb_proc (native_ctx w)) \<or> verify_cb_proc (native_ctx w) = Some Qnil"
    using assms
    by (auto simp add: verify_cb_proc_def X509_STORE_CTX_get_ex_data_def
          X509_STORE_get_ex_data_def)
  thus ?thesis by (auto simp add: ossl_verify_cb_def Let_def is_null_def)
qed

text \<open>The callback on contexts without a closure, with the closure \<^verbatim>\<open>nil\<close>, and with
  \<^verbatim>\<open>false\<close> in the slot.\<close>

theorem ossl_verify_cb_passthrough_witness:
  "ossl_verify_cb demo_ruby 1 (demo_ctx None None 10) = (Returns 1, demo_ctx None None 10)
   \<and> ossl_verify_cb demo_ruby 0 (demo_ctx None None 0) = (Returns 0, demo_ctx None None 0)
   \<and> ossl_verify_cb demo_ruby 0 (demo_ctx None (Some Qnil) 0)
       = (Returns 0, demo_ctx None (Some Qnil) 0)
   \<and> ossl_verify_cb demo_ruby 1 (demo_ctx (Some Qnil) (Some (RObject 1)) 10)
       = (Returns 1, demo_ctx (Some Qnil) (Some (RObject 1)) 10)
   \<and> ossl_verify_cb demo_ruby 1 (demo_ctx (Some Qfalse) None 10)
       = (Returns 1, demo_ctx (Some Qfalse) None 10)"
proof -
  have d: "is_null (ctx_ex_data (native_ctx (demo_ctx (Some Qfalse) None 10)))
           \<and> is_null (store_ex_data (native_ctx (demo_ctx (Some Qfalse) None 10)))"
    by (simp add: demo_ctx_def is_null_def)
  have a: "is_null (ctx_ex_data (native_ctx (demo_ctx None None e)))
           \<and> is_null (store_ex_data (native_ctx (demo_ctx None None e)))" for e
    by (simp add: demo_ctx_def is_null_def)
  have b: "verify_cb_proc (native_ctx (demo_ctx None (Some Qnil) 0)) = Some Qnil"
    by (simp add: demo_ctx_def verify_cb_proc_def X509_STORE_CTX_get_ex_data_def
          X509_STORE_get_ex_data_def is_null_def)
  have c: "verify_cb_proc (native_ctx (demo_ctx (Some Qnil) (Some (RObject 1)) 10)) = Some Qnil"
    by (simp add: demo_ctx_def verify_cb_proc_def X509_STORE_CTX_get_ex_data_def is_null_def)
  show ?thesis
    using ossl_verify_cb_passthrough [of "demo_ctx None None 10" demo_ruby 1]
      ossl_verify_cb_passthrough [of "demo_ctx None None 0" demo_ruby 0]
      ossl_verify_cb_passthrough [of "demo_ctx None (Some Qnil) 0" demo_ruby 0]
      ossl_verify_cb_passthrough [of "demo_ctx (Some Qnil) (Some (RObject 1)) 10" demo_ruby 1]
      ossl_verify_cb_passthrough [of "demo_ctx (Some Qfalse) None 10" demo_ruby 1]
      a b c d
    by blast
qed

subsection \<open>A closure\<close>

text \<open>What the callback does with a closure that is not \<^verbatim>\<open>nil\<close>, by what the wrapper
  construction and the closure do.\<close>

lemma ossl_verify_cb_closure:
  assumes "verify_cb_proc (native_ctx w) = Some p" "p \<noteq> Qfalse" "p \<noteq> Qnil"
    and "ossl_x509stctx_new R (native_ctx w) = Inr rctx"
    and "proc_call R p (if ok \<noteq> 0 then Qtrue else Qfalse) rctx w = (r, w1)"
  shows "ossl_verify_cb R ok w =
           (case r of
              Inl e \<Rightarrow> (Raises e, ossl_x509stctx_clear_ptr rctx w1)
            | Inr ret \<Rightarrow> verify_verdict ret (ossl_x509stctx_clear_ptr rctx w1))"
  using assms
  by (simp add: ossl_verify_cb_def is_null_def rb_protect_def rb_ensure_def
        ossl_call_verify_cb_proc_def split: sum.splits)

lemma ossl_verify_cb_accept:
  assumes "verify_cb_proc (native_ctx w) = Some p" "p \<noteq> Qfalse" "p \<noteq> Qnil"
    and "ossl_x509stctx_new R (native_ctx w) = Inr rctx"
    and "proc_call R p (if ok \<noteq> 0 then Qtrue else Qfalse) rctx w = (Inr Qtrue, w1)"
  shows "ossl_verify_cb R ok w
           = (Returns 1, X509_STORE_CTX_set_error (ossl_x509stctx_clear_ptr rctx w1) X509_V_OK)"
  using ossl_verify_cb_closure [OF assms] by (simp add: verify_verdict_def)

lemma ossl_verify_cb_reject:
  assumes "verify_cb_proc (native_ctx w) = Some p" "p \<noteq> Qfalse" "p \<noteq> Qnil"
    and "ossl_x509stctx_new R (native_ctx w) = Inr rctx"
    and "proc_call R p (if ok \<noteq> 0 then Qtrue else Qfalse) rctx w = (Inr ret, w1)"
    and "ret \<noteq> Qtrue"
  shows "ossl_verify_cb R ok w
           = (Returns 0,
              if verify_error (native_ctx w1) = X509_V_OK
              then X509_STORE_CTX_set_error (ossl_x509stctx_clear_ptr rctx w1)
                     X509_V_ERR_CERT_REJECTED
              else ossl_x509stctx_clear_ptr rctx w1)"
  using ossl_verify_cb_closure [OF assms(1-5)] assms(6)
  by (simp add: verify_verdict_def X509_STORE_CTX_get_error_def ossl_x509stctx_clear_ptr_def)

lemma ossl_verify_cb_wrapper_fails:
  assumes "verify_cb_proc (native_ctx w) = Some p" "p \<noteq> Qfalse" "p \<noteq> Qnil"
    and "ossl_x509stctx_new R (native_ctx w) = Inl e"
  shows "ossl_verify_cb R ok w
           = (Returns 0,
              if verify_error (native_ctx w) = X509_V_OK
              then X509_STORE_CTX_set_error w X509_V_ERR_CERT_REJECTED
              else w)"
  using assms
  by (simp add: ossl_verify_cb_def is_null_def rb_protect_def TAG_RAISE_def verify_verdict_def
        X509_STORE_CTX_get_error_def)

lemma ossl_verify_cb_closure_raises:
  assumes "verify_cb_proc (native_ctx w) = Some p" "p \<noteq> Qfalse" "p \<noteq> Qnil"
    and "ossl_x509stctx_new R (native_ctx w) = Inr rctx"
    and "proc_call R p (if ok \<noteq> 0 then Qtrue else Qfalse) rctx w = (Inl e, w1)"
  shows "ossl_verify_cb R ok w = (Raises e, ossl_x509stctx_clear_ptr rctx w1)"
  using ossl_verify_cb_closure [OF assms] by simp

text \<open>
  C1.  The claim is that a closure invocation that fails makes the callback return
  \<^verbatim>\<open>false\<close>.  The closure is invoked through \<^verbatim>\<open>rb_ensure\<close> alone (line 189), which
  clears the wrapper and then delivers the exception: it leaves \<^verbatim>\<open>ossl_verify_cb\<close>,
  no value is returned and the error code is not touched.  Here the closure at
  address 2 raises while the native code had found no error.
\<close>

theorem ossl_verify_cb_raising_closure:
  "ossl_verify_cb demo_ruby 1 (demo_ctx (Some (RObject 2)) None 0)
     = (Raises (Exn (rb_eOther 0) ''no''),
        (demo_ctx (Some (RObject 2)) None 0)\<lparr>cleared_wrappers := [RObject 7]\<rparr>)"
  by (simp add: ossl_verify_cb_def demo_ruby_def demo_ctx_def verify_cb_proc_def is_null_def
        X509_STORE_CTX_get_ex_data_def rb_protect_def rb_ensure_def
        ossl_call_verify_cb_proc_def ossl_x509stctx_clear_ptr_def)

text \<open>The other cases of the claim, on the same managed side: the closure at address 1
  returns \<^verbatim>\<open>true\<close> over a recorded error, the one at address 3 returns \<^verbatim>\<open>false\<close>.\<close>

lemma ossl_verify_cb_examples:
  "ossl_verify_cb demo_ruby 0 (demo_ctx (Some (RObject 1)) None 10)
     = (Returns 1, (demo_ctx (Some (RObject 1)) None 0)\<lparr>cleared_wrappers := [RObject 7]\<rparr>)"
  "ossl_verify_cb demo_ruby 1 (demo_ctx None (Some (RObject 3)) 0)
     = (Returns 0, (demo_ctx None (Some (RObject 3)) 28)\<lparr>cleared_wrappers := [RObject 7]\<rparr>)"
  "ossl_verify_cb demo_ruby 1 (demo_ctx None (Some (RObject 3)) 10)
     = (Returns 0, (demo_ctx None (Some (RObject 3)) 10)\<lparr>cleared_wrappers := [RObject 7]\<rparr>)"
  by (simp_all add: ossl_verify_cb_def demo_ruby_def demo_ctx_def verify_cb_proc_def is_null_def
        X509_STORE_CTX_get_ex_data_def X509_STORE_get_ex_data_def rb_protect_def rb_ensure_def
        ossl_call_verify_cb_proc_def ossl_x509stctx_clear_ptr_def verify_verdict_def
        X509_STORE_CTX_get_error_def X509_STORE_CTX_set_error_def X509_V_OK_def
        X509_V_ERR_CERT_REJECTED_def)

section \<open>Passphrase callback: \<^verbatim>\<open>ossl_pem_passwd_cb\<close>\<close>

text \<open>
  What the callback works on: the native buffer \<^verbatim>\<open>buf\<close>, the calls of \<^verbatim>\<open>rb_warning\<close>
  so far (format and arguments), and how many times the block has been invoked.
\<close>

record pem_world =
  pem_buf :: string
  warnings :: "(string \<times> cint list) list"
  yields :: nat

text \<open>
  The block given to the operation: \<open>blk flag n\<close> is what \<^verbatim>\<open>rb_yield(flag)\<close> does at
  invocation number \<open>n\<close> (from 0) of the block, return a value or raise.
\<close>

type_synonym block = "VALUE \<Rightarrow> nat \<Rightarrow> exn + VALUE"

text \<open>
  \<^verbatim>\<open>SafeStringValue\<close> is a macro of \<^verbatim>\<open>ruby.h\<close>, which is not among the sources: a
  string passes, any other value raises \<^verbatim>\<open>TypeError\<close>.
\<close>

definition SafeStringValue :: "VALUE \<Rightarrow> exn + VALUE" where
  "SafeStringValue v =
     (case v of RString a s \<Rightarrow> Inr v
      | _ \<Rightarrow> Inl (Exn rb_eTypeError ''can't convert into String''))"

text \<open>\<^verbatim>\<open>ossl_pem_passwd_cb0\<close>, lines 113 to 122, at invocation \<open>n\<close> of the block.\<close>

definition ossl_pem_passwd_cb0 :: "block \<Rightarrow> nat \<Rightarrow> VALUE \<Rightarrow> exn + VALUE" where
  "ossl_pem_passwd_cb0 blk n flag =
     (case blk flag n of Inl e \<Rightarrow> Inl e | Inr pass \<Rightarrow> SafeStringValue pass)"

text \<open>\<^verbatim>\<open>RSTRING(pass)->ptr\<close> with \<^verbatim>\<open>RSTRING(pass)->len\<close>: the bytes of a string object.\<close>

definition RSTRING :: "VALUE \<Rightarrow> string option" where
  "RSTRING v = (case v of RString a s \<Rightarrow> Some s | _ \<Rightarrow> None)"

text \<open>
  The assignment \<^verbatim>\<open>len = RSTRING(pass)->len\<close> of line 142.  The length of a string
  object is a \<^verbatim>\<open>long\<close> (\<^verbatim>\<open>ruby.h\<close>), of 64 bits where \<^verbatim>\<open>size_t\<close> has 64, and \<^verbatim>\<open>len\<close> is
  declared \<^verbatim>\<open>int\<close> at line 127: \<^verbatim>\<open>len\<close> receives the low 32 bits of the length, read as
  a signed number.
\<close>

definition long_to_int :: "nat \<Rightarrow> cint" where
  "long_to_int n = word_of_nat n"

text \<open>
  Modelled from the spec: \<^verbatim>\<open>rb_warning\<close> (the runtime's \<^verbatim>\<open>error.c\<close> is not among the
  sources) emits a warning; the model keeps the format and its arguments.
\<close>

definition rb_warning :: "pem_world \<Rightarrow> string \<Rightarrow> cint list \<Rightarrow> pem_world" where
  "rb_warning w fmt args = w\<lparr>warnings := warnings w @ [(fmt, args)]\<rparr>"

text \<open>\<^verbatim>\<open>memcpy(dst, src, n)\<close>: \<open>None\<close> when either array has fewer than \<open>n\<close> bytes.\<close>

definition memcpy :: "string \<Rightarrow> string \<Rightarrow> nat \<Rightarrow> string option" where
  "memcpy dst src n =
     (if n \<le> length dst \<and> n \<le> length src then Some (take n src @ drop n dst) else None)"

text \<open>
  The \<^verbatim>\<open>while (1)\<close> loop of lines 133 to 153 with the \<^verbatim>\<open>return\<close> of line 154.  It need
  not end: the result is \<open>None\<close> when it runs forever.  The tests of lines 143 and 147
  compare \<^verbatim>\<open>int\<close> with \<^verbatim>\<open>int\<close>; \<^verbatim>\<open>max_len-1\<close> is computed on \<^verbatim>\<open>int\<close>, a 32-bit word as
  everywhere here; the third argument of \<^verbatim>\<open>memcpy\<close> is \<^verbatim>\<open>len\<close> converted to \<^verbatim>\<open>size_t\<close>.
\<close>

partial_function (option) pem_passwd_loop ::
  "block \<Rightarrow> cint \<Rightarrow> cint \<Rightarrow> pem_world \<Rightarrow> (cint outcome \<times> pem_world) option" where
  "pem_passwd_loop blk max_len flag w =
     (let rflag = (if flag \<noteq> 0 then Qtrue else Qfalse);
          (pass, status) = rb_protect (ossl_pem_passwd_cb0 blk (yields w) rflag);
          w1 = w\<lparr>yields := Suc (yields w)\<rparr>
      in if status \<noteq> 0 then Some (Returns (- 1), w1)
         else
           (case RSTRING pass of
              None \<Rightarrow> Some (Undefined, w1)
            | Some s \<Rightarrow>
                let len = long_to_int (length s) in
                if len <s 4 then
                  pem_passwd_loop blk max_len flag
                    (rb_warning w1 ''password must be longer than 4 bytes'' [])
                else if max_len <s len then
                  pem_passwd_loop blk max_len flag
                    (rb_warning w1 ''password must be shorter then %d bytes'' [max_len - 1])
                else
                  (case memcpy (pem_buf w1) s (size_t (sint len)) of
                     None \<Rightarrow> Some (Undefined, w1)
                   | Some b \<Rightarrow> Some (Returns len, w1\<lparr>pem_buf := b\<rparr>))))"

text \<open>
  \<^verbatim>\<open>ossl_pem_passwd_cb\<close>, lines 124 to 155.  \<open>pwd\<close> is \<open>None\<close> for a null pointer, \<open>blk\<close> is
  \<open>None\<close> when no block is given, and \<^verbatim>\<open>PEM_def_callback\<close> is the native library's own
  callback, a parameter.
\<close>

definition ossl_pem_passwd_cb ::
  "(pem_world \<Rightarrow> cint \<Rightarrow> cint \<Rightarrow> string option \<Rightarrow> cint \<times> pem_world) \<Rightarrow> block option \<Rightarrow> cint \<Rightarrow> cint
     \<Rightarrow> string option \<Rightarrow> pem_world \<Rightarrow> (cint outcome \<times> pem_world) option" where
  "ossl_pem_passwd_cb PEM_def_callback blk max_len flag pwd w =
     (if pwd \<noteq> None \<or> blk = None then
        (case PEM_def_callback w max_len flag pwd of (r, w') \<Rightarrow> Some (Returns r, w'))
      else pem_passwd_loop (the blk) max_len flag w)"

text \<open>The warning that a password of the wrong length earns (lines 143 to 150).\<close>

definition pem_warning :: "cint \<Rightarrow> string \<Rightarrow> string \<times> cint list" where
  "pem_warning max_len s =
     (if long_to_int (length s) <s 4 then (''password must be longer than 4 bytes'', [])
      else (''password must be shorter then %d bytes'', [max_len - 1]))"

text \<open>
  A block, a buffer of eight bytes and a default callback to run the function on.  The
  block yields a password of three bytes, then one of ten, then one of six, and raises
  from then on.
\<close>

definition demo_block :: block where
  "demo_block flag n =
     (if n = 0 then Inr (RString 10 ''abc'')
      else if n = 1 then Inr (RString 11 ''0123456789'')
      else if n = 2 then Inr (RString 12 ''secret'')
      else Inl (Exn (rb_eOther 0) ''interrupt''))"

definition demo_pem :: pem_world where
  "demo_pem = \<lparr>pem_buf = ''........'', warnings = [], yields = 0\<rparr>"

definition no_def_callback :: "pem_world \<Rightarrow> cint \<Rightarrow> cint \<Rightarrow> string option \<Rightarrow> cint \<times> pem_world" where
  "no_def_callback w max_len flag pwd = (0, w)"

text \<open>A block that yields a password of eight bytes, then raises.\<close>

definition demo_block8 :: block where
  "demo_block8 flag n =
     (if n = 0 then Inr (RString 5 ''passw0rd'') else Inl (Exn (rb_eOther 0) ''interrupt''))"

text \<open>A block that yields a password of \<open>2\<^sup>3\<^sup>2 + k\<close> bytes, each the letter x.\<close>

definition long_block :: "nat \<Rightarrow> block" where
  "long_block k flag n = Inr (RString 7 (replicate (4294967296 + k) (CHR ''x'')))"

subsection \<open>The length as the callback reads it\<close>

lemma long_to_int_small: "n < 2 ^ 31 \<Longrightarrow> sint (long_to_int n) = int n"
  unfolding long_to_int_def by (rule sint_of_nat)

lemma long_to_int_wrap: "long_to_int (4294967296 + k) = long_to_int k"
proof -
  have "(word_of_nat (4294967296 + k) :: cint) = word_of_nat 4294967296 + word_of_nat k"
    by (rule of_nat_add)
  moreover have "(word_of_nat 4294967296 :: cint) = 0" by simp
  ultimately show ?thesis unfolding long_to_int_def by simp
qed

lemma sint_nonneg_unat:
  assumes "0 \<le> sint (x::cint)"
  shows "nat (sint x) = unat x"
proof -
  have "sint x < 2 ^ (LENGTH(32) - 1)" by (rule sint_lt)
  hence "sint x < 2 ^ 31" by simp
  also have "(2::int) ^ 31 < 2 ^ 32" by (rule power_strict_increasing) simp_all
  finally have m: "sint x mod 2 ^ 32 = sint x" using assms by (intro mod_pos_pos_trivial)
  have "uint x = sint x mod 2 ^ LENGTH(32)" by (simp only: uint_sint take_bit_eq_mod)
  hence "uint x = sint x mod 2 ^ 32" by simp
  hence u: "uint x = sint x" by (simp only: m)
  have "unat x = nat (uint x)" by (rule unat_eq_nat_uint)
  thus ?thesis by (simp only: u)
qed

lemma long_to_int_le:
  assumes "0 \<le> sint (long_to_int n)"
  shows "nat (sint (long_to_int n)) \<le> n"
proof -
  have "nat (sint (long_to_int n)) = unat (long_to_int n)" using assms by (rule sint_nonneg_unat)
  also have "\<dots> = n mod 2 ^ LENGTH(32)" unfolding long_to_int_def by (rule unat_of_nat)
  also have "\<dots> \<le> n" by (rule mod_less_eq_dividend)
  finally show ?thesis .
qed

lemma size_t_sint:
  assumes "0 \<le> sint (x::cint)"
  shows "size_t (sint x) = nat (sint x)"
proof -
  have "sint x < 2 ^ (LENGTH(32) - 1)" by (rule sint_lt)
  hence "sint x < 2 ^ 31" by simp
  also have "(2::int) ^ 31 < 2 ^ 64" by (rule power_strict_increasing) simp_all
  finally have "sint x mod 2 ^ 64 = sint x" using assms by (intro mod_pos_pos_trivial)
  thus ?thesis unfolding size_t_def by (simp only:)
qed

lemma not_sless_four: "\<not> (x::cint) <s 4 \<Longrightarrow> 4 \<le> sint x"
  by (simp add: word_sless_alt)

subsection \<open>One round of the loop\<close>

lemma protect_string:
  assumes "blk rflag n = Inr (RString a s)"
  shows "rb_protect (ossl_pem_passwd_cb0 blk n rflag) = (RString a s, 0)"
  using assms by (simp add: ossl_pem_passwd_cb0_def SafeStringValue_def rb_protect_def)

lemma protect_raise:
  assumes "blk rflag n = Inl e \<or> (\<exists>v. blk rflag n = Inr v \<and> RSTRING v = None)"
  shows "rb_protect (ossl_pem_passwd_cb0 blk n rflag) = (Qnil, TAG_RAISE)"
proof -
  from assms consider e where "blk rflag n = Inl e"
    | v where "blk rflag n = Inr v" "RSTRING v = None" by blast
  thus ?thesis
  proof cases
    case 1
    thus ?thesis by (simp add: ossl_pem_passwd_cb0_def rb_protect_def)
  next
    case 2
    hence "SafeStringValue v = Inl (Exn rb_eTypeError ''can't convert into String'')"
      by (cases v) (simp_all add: SafeStringValue_def RSTRING_def)
    thus ?thesis using 2 by (simp add: ossl_pem_passwd_cb0_def rb_protect_def)
  qed
qed

lemma pem_passwd_loop_retry:
  assumes "blk rflag (yields w) = Inr (RString a s)"
    and "rflag = (if flag \<noteq> 0 then Qtrue else Qfalse)"
    and "long_to_int (length s) <s 4 \<or> max_len <s long_to_int (length s)"
  shows "pem_passwd_loop blk max_len flag w
           = pem_passwd_loop blk max_len flag
               (w\<lparr>yields := Suc (yields w), warnings := warnings w @ [pem_warning max_len s]\<rparr>)"
proof -
  have p: "rb_protect (ossl_pem_passwd_cb0 blk (yields w) (if flag \<noteq> 0 then Qtrue else Qfalse))
             = (RString a s, 0)"
    using protect_string [where blk = blk and rflag = rflag, OF assms(1)] assms(2) by simp
  have r: "RSTRING (RString a s) = Some s" by (simp add: RSTRING_def)
  show ?thesis
  proof (cases "long_to_int (length s) <s 4")
    case True
    thus ?thesis
      by (subst pem_passwd_loop.simps)
         (simp add: p r Let_def rb_warning_def pem_warning_def)
  next
    case False
    hence "max_len <s long_to_int (length s)" using assms(3) by simp
    thus ?thesis using False
      by (subst pem_passwd_loop.simps)
         (simp add: p r Let_def rb_warning_def pem_warning_def)
  qed
qed

lemma pem_passwd_loop_retries:
  assumes "rflag = (if flag \<noteq> 0 then Qtrue else Qfalse)"
    and "\<forall>i<length ss. \<exists>a. blk rflag (yields w + i) = Inr (RString a (ss ! i))
             \<and> (long_to_int (length (ss ! i)) <s 4 \<or> max_len <s long_to_int (length (ss ! i)))"
  shows "pem_passwd_loop blk max_len flag w
           = pem_passwd_loop blk max_len flag
               (w\<lparr>yields := yields w + length ss,
                  warnings := warnings w @ map (pem_warning max_len) ss\<rparr>)"
  using assms(2)
proof (induction ss arbitrary: w)
  case Nil
  thus ?case by simp
next
  case (Cons s ss)
  from Cons.prems [rule_format, of 0] obtain a where
    h: "blk rflag (yields w) = Inr (RString a s)"
       "long_to_int (length s) <s 4 \<or> max_len <s long_to_int (length s)"
    by auto
  define w1 where "w1 = w\<lparr>yields := Suc (yields w), warnings := warnings w @ [pem_warning max_len s]\<rparr>"
  have step: "pem_passwd_loop blk max_len flag w = pem_passwd_loop blk max_len flag w1"
    unfolding w1_def
    by (rule pem_passwd_loop_retry [where blk = blk and rflag = rflag, OF h(1) assms(1) h(2)])
  have "\<forall>i<length ss. \<exists>a. blk rflag (yields w1 + i) = Inr (RString a (ss ! i))
             \<and> (long_to_int (length (ss ! i)) <s 4 \<or> max_len <s long_to_int (length (ss ! i)))"
  proof (intro allI impI)
    fix i assume "i < length ss"
    hence "Suc i < length (s # ss)" by simp
    from Cons.prems [rule_format, OF this]
    show "\<exists>a. blk rflag (yields w1 + i) = Inr (RString a (ss ! i))
             \<and> (long_to_int (length (ss ! i)) <s 4 \<or> max_len <s long_to_int (length (ss ! i)))"
      by (simp add: w1_def)
  qed
  from Cons.IH [OF this] have
    "pem_passwd_loop blk max_len flag w1
       = pem_passwd_loop blk max_len flag
           (w1\<lparr>yields := yields w1 + length ss,
               warnings := warnings w1 @ map (pem_warning max_len) ss\<rparr>)" .
  thus ?case using step by (simp add: w1_def)
qed

lemma pem_passwd_loop_raise:
  assumes "blk rflag (yields w) = Inl e \<or> (\<exists>v. blk rflag (yields w) = Inr v \<and> RSTRING v = None)"
    and "rflag = (if flag \<noteq> 0 then Qtrue else Qfalse)"
  shows "pem_passwd_loop blk max_len flag w = Some (Returns (- 1), w\<lparr>yields := Suc (yields w)\<rparr>)"
proof -
  have p: "rb_protect (ossl_pem_passwd_cb0 blk (yields w) (if flag \<noteq> 0 then Qtrue else Qfalse))
             = (Qnil, TAG_RAISE)"
    using protect_raise [where blk = blk and rflag = rflag, OF assms(1)] assms(2) by simp
  show ?thesis
    by (subst pem_passwd_loop.simps) (simp add: p Let_def TAG_RAISE_def)
qed

text \<open>
  A password that passes both tests: \<^verbatim>\<open>len\<close> bytes of it are copied, \<^verbatim>\<open>len\<close> being the
  length as the callback reads it, and \<^verbatim>\<open>len\<close> is returned.
\<close>

lemma pem_passwd_loop_accept:
  assumes "blk rflag (yields w) = Inr (RString a s)"
    and "rflag = (if flag \<noteq> 0 then Qtrue else Qfalse)"
    and "\<not> long_to_int (length s) <s 4" "\<not> max_len <s long_to_int (length s)"
    and "nat (sint (long_to_int (length s))) \<le> length (pem_buf w)"
  shows "pem_passwd_loop blk max_len flag w
           = Some (Returns (long_to_int (length s)),
                   w\<lparr>yields := Suc (yields w),
                     pem_buf := take (nat (sint (long_to_int (length s)))) s
                                @ drop (nat (sint (long_to_int (length s)))) (pem_buf w)\<rparr>)"
proof -
  define len where "len = long_to_int (length s)"
  have p: "rb_protect (ossl_pem_passwd_cb0 blk (yields w) (if flag \<noteq> 0 then Qtrue else Qfalse))
             = (RString a s, 0)"
    using protect_string [where blk = blk and rflag = rflag, OF assms(1)] assms(2) by simp
  have r: "RSTRING (RString a s) = Some s" by (simp add: RSTRING_def)
  have four: "4 \<le> sint len" using assms(3) unfolding len_def by (rule not_sless_four)
  hence nn: "0 \<le> sint len" by simp
  have sz: "size_t (sint len) = nat (sint len)" using nn by (rule size_t_sint)
  have le: "nat (sint len) \<le> length s" using nn unfolding len_def by (rule long_to_int_le)
  have m: "memcpy (pem_buf w) s (nat (sint len))
             = Some (take (nat (sint len)) s @ drop (nat (sint len)) (pem_buf w))"
    using assms(5) le by (simp add: memcpy_def len_def)
  have t: "\<not> len <s 4" "\<not> max_len <s len" using assms(3,4) by (simp_all add: len_def)
  show ?thesis unfolding len_def [symmetric]
    by (subst pem_passwd_loop.simps)
       (simp add: p r Let_def len_def [symmetric] t sz m)
qed

text \<open>
  A password shorter than \<open>2\<^sup>3\<^sup>1\<close> bytes: the callback reads its length as it is.
\<close>

lemma pem_len_plain:
  assumes "length s < 2 ^ 31"
  shows "(long_to_int (length s) <s 4) = (length s < 4)"
    and "(max_len <s long_to_int (length s)) = (sint max_len < int (length s))"
    and "nat (sint (long_to_int (length s))) = length s"
proof -
  have e: "sint (long_to_int (length s)) = int (length s)"
    using assms by (rule long_to_int_small)
  show "(long_to_int (length s) <s 4) = (length s < 4)"
    by (simp add: word_sless_alt e)
  show "(max_len <s long_to_int (length s)) = (sint max_len < int (length s))"
    by (simp add: word_sless_alt e)
  show "nat (sint (long_to_int (length s))) = length s"
    by (simp add: e)
qed

lemma below_max_len:
  assumes "int n \<le> sint (max_len::cint)"
  shows "n < 2 ^ 31"
proof -
  have "sint max_len < 2 ^ (LENGTH(32) - 1)" by (rule sint_lt)
  hence "sint max_len < 2 ^ 31" by simp
  with assms have "int n < 2 ^ 31" by (rule le_less_trans)
  hence "int n < int (2 ^ 31)" by (simp only: of_nat_power of_nat_numeral)
  thus ?thesis by (rule iffD1 [OF of_nat_less_iff])
qed

subsection \<open>The protocol for passwords shorter than \<open>2\<^sup>3\<^sup>1\<close> bytes\<close>

text \<open>
  With no direct password and a block given: if the first invocations of the block
  return the passwords \<open>ss\<close>, each shorter than \<open>2\<^sup>3\<^sup>1\<close> bytes and shorter than 4 bytes
  or longer than \<^verbatim>\<open>max_len\<close>, the callback logs one warning for each of them and invokes
  the block again; if the next invocation raises (or returns something that is not a
  string, which raises inside the protected function), the callback returns \<open>-1\<close>, at
  once when \<open>ss\<close> is empty; if it returns a password whose length lies in
  \<open>[4, max_len]\<close>, the callback copies exactly that many bytes to the start of the native
  buffer and returns that length.  In both cases the callback does return.
\<close>

lemma ossl_pem_passwd_cb_protocol:
  assumes "rflag = (if flag \<noteq> 0 then Qtrue else Qfalse)"
    and "\<forall>i<length ss. \<exists>a. blk rflag (yields w + i) = Inr (RString a (ss ! i))
             \<and> length (ss ! i) < 2 ^ 31
             \<and> (length (ss ! i) < 4 \<or> sint max_len < int (length (ss ! i)))"
  shows "((\<exists>e. blk rflag (yields w + length ss) = Inl e)
           \<or> (\<exists>v. blk rflag (yields w + length ss) = Inr v \<and> RSTRING v = None) \<longrightarrow>
          ossl_pem_passwd_cb D (Some blk) max_len flag None w
            = Some (Returns (- 1),
                    w\<lparr>yields := yields w + length ss + 1,
                      warnings := warnings w @ map (pem_warning max_len) ss\<rparr>))
       \<and> (\<forall>a s. blk rflag (yields w + length ss) = Inr (RString a s)
               \<and> 4 \<le> length s \<and> int (length s) \<le> sint max_len
               \<and> length s \<le> length (pem_buf w) \<longrightarrow>
          ossl_pem_passwd_cb D (Some blk) max_len flag None w
            = Some (Returns (long_to_int (length s)),
                    w\<lparr>yields := yields w + length ss + 1,
                      warnings := warnings w @ map (pem_warning max_len) ss,
                      pem_buf := s @ drop (length s) (pem_buf w)\<rparr>)
          \<and> sint (long_to_int (length s)) = int (length s))"
proof -
  define w' where "w' = w\<lparr>yields := yields w + length ss,
                          warnings := warnings w @ map (pem_warning max_len) ss\<rparr>"
  have wrong: "\<forall>i<length ss. \<exists>a. blk rflag (yields w + i) = Inr (RString a (ss ! i))
             \<and> (long_to_int (length (ss ! i)) <s 4 \<or> max_len <s long_to_int (length (ss ! i)))"
  proof (intro allI impI)
    fix i assume "i < length ss"
    with assms(2) obtain a where
      h: "blk rflag (yields w + i) = Inr (RString a (ss ! i))" "length (ss ! i) < 2 ^ 31"
         "length (ss ! i) < 4 \<or> sint max_len < int (length (ss ! i))"
      by blast
    have "long_to_int (length (ss ! i)) <s 4 \<or> max_len <s long_to_int (length (ss ! i))"
      using h(3) by (simp only: pem_len_plain [OF h(2)])
    thus "\<exists>a. blk rflag (yields w + i) = Inr (RString a (ss ! i))
             \<and> (long_to_int (length (ss ! i)) <s 4 \<or> max_len <s long_to_int (length (ss ! i)))"
      using h(1) by blast
  qed
  have loop: "ossl_pem_passwd_cb D (Some blk) max_len flag None w
                = pem_passwd_loop blk max_len flag w'"
    unfolding w'_def ossl_pem_passwd_cb_def
    using pem_passwd_loop_retries [where blk = blk and rflag = rflag, OF assms(1) wrong] by simp
  have y: "yields w' = yields w + length ss" by (simp add: w'_def)
  show ?thesis
  proof (intro conjI allI impI)
    assume "(\<exists>e. blk rflag (yields w + length ss) = Inl e)
           \<or> (\<exists>v. blk rflag (yields w + length ss) = Inr v \<and> RSTRING v = None)"
    then obtain e where "blk rflag (yields w') = Inl e
           \<or> (\<exists>v. blk rflag (yields w') = Inr v \<and> RSTRING v = None)"
      unfolding y by blast
    from pem_passwd_loop_raise [where blk = blk and rflag = rflag, OF this assms(1)]
    show "ossl_pem_passwd_cb D (Some blk) max_len flag None w
            = Some (Returns (- 1),
                    w\<lparr>yields := yields w + length ss + 1,
                      warnings := warnings w @ map (pem_warning max_len) ss\<rparr>)"
      unfolding loop by (simp add: w'_def)
  next
    fix a s
    assume h: "blk rflag (yields w + length ss) = Inr (RString a s)
               \<and> 4 \<le> length s \<and> int (length s) \<le> sint max_len
               \<and> length s \<le> length (pem_buf w)"
    hence b: "blk rflag (yields w') = Inr (RString a s)" unfolding y by simp
    have small: "length s < 2 ^ 31" using h by (intro below_max_len [of _ max_len]) simp
    note pl = pem_len_plain [OF small]
    have c1: "\<not> long_to_int (length s) <s 4" using h by (simp add: pl)
    have c2: "\<not> max_len <s long_to_int (length s)" using h by (simp add: pl)
    have l: "nat (sint (long_to_int (length s))) \<le> length (pem_buf w')"
      using h by (simp add: pl w'_def)
    from pem_passwd_loop_accept [where blk = blk and rflag = rflag, OF b assms(1) c1 c2 l]
    show "ossl_pem_passwd_cb D (Some blk) max_len flag None w
            = Some (Returns (long_to_int (length s)),
                    w\<lparr>yields := yields w + length ss + 1,
                      warnings := warnings w @ map (pem_warning max_len) ss,
                      pem_buf := s @ drop (length s) (pem_buf w)\<rparr>)"
      unfolding loop by (simp add: pl w'_def)
  next
    fix a s
    assume h: "blk rflag (yields w + length ss) = Inr (RString a s)
               \<and> 4 \<le> length s \<and> int (length s) \<le> sint max_len
               \<and> length s \<le> length (pem_buf w)"
    have small: "length s < 2 ^ 31" using h by (intro below_max_len [of _ max_len]) simp
    thus "sint (long_to_int (length s)) = int (length s)" by (rule long_to_int_small)
  qed
qed

text \<open>
  An accepted password shorter than \<open>2\<^sup>3\<^sup>1\<close> bytes is copied to the start of the native
  buffer, exactly its length, and the bytes after it are left as they were: no NUL is
  written.  A password of exactly \<^verbatim>\<open>max_len\<close> bytes is accepted, and a buffer of \<^verbatim>\<open>max_len\<close>
  bytes then holds the password and nothing else.  The warning for a longer password
  carries the number \<^verbatim>\<open>max_len - 1\<close>.
\<close>

lemma ossl_pem_passwd_cb_boundary:
  assumes "rflag = (if flag \<noteq> 0 then Qtrue else Qfalse)"
    and "blk rflag (yields w) = Inr (RString a s)"
    and "4 \<le> length s" "length s < 2 ^ 31"
  shows "(int (length s) \<le> sint max_len \<and> length s \<le> length (pem_buf w) \<longrightarrow>
            ossl_pem_passwd_cb D (Some blk) max_len flag None w
              = Some (Returns (long_to_int (length s)),
                      w\<lparr>yields := Suc (yields w),
                        pem_buf := s @ drop (length s) (pem_buf w)\<rparr>))
       \<and> (int (length s) = sint max_len \<and> length (pem_buf w) = length s \<longrightarrow>
            ossl_pem_passwd_cb D (Some blk) max_len flag None w
              = Some (Returns max_len, w\<lparr>yields := Suc (yields w), pem_buf := s\<rparr>))
       \<and> (sint max_len < int (length s) \<and> (\<exists>e. blk rflag (Suc (yields w)) = Inl e) \<longrightarrow>
            ossl_pem_passwd_cb D (Some blk) max_len flag None w
              = Some (Returns (- 1),
                      w\<lparr>yields := Suc (Suc (yields w)),
                        warnings := warnings w
                          @ [(''password must be shorter then %d bytes'', [max_len - 1])]\<rparr>))"
proof -
  note pl = pem_len_plain [OF assms(4)]
  have c1: "\<not> long_to_int (length s) <s 4" using assms(3) by (simp add: pl)
  have acc: "ossl_pem_passwd_cb D (Some blk) max_len flag None w
              = Some (Returns (long_to_int (length s)),
                      w\<lparr>yields := Suc (yields w),
                        pem_buf := s @ drop (length s) (pem_buf w)\<rparr>)"
    if h: "int (length s) \<le> sint max_len" "length s \<le> length (pem_buf w)"
  proof -
    have c2: "\<not> max_len <s long_to_int (length s)" using h by (simp add: pl)
    have l: "nat (sint (long_to_int (length s))) \<le> length (pem_buf w)" using h by (simp add: pl)
    from pem_passwd_loop_accept [where blk = blk and rflag = rflag, OF assms(2) assms(1) c1 c2 l]
    show ?thesis by (simp add: ossl_pem_passwd_cb_def pl)
  qed
  have bnd: "ossl_pem_passwd_cb D (Some blk) max_len flag None w
              = Some (Returns max_len, w\<lparr>yields := Suc (yields w), pem_buf := s\<rparr>)"
    if h: "int (length s) = sint max_len" "length (pem_buf w) = length s"
  proof -
    have "sint (long_to_int (length s)) = sint max_len"
      using h(1) long_to_int_small [OF assms(4)] by simp
    hence m: "long_to_int (length s) = max_len" by (simp only: signed_word_eqI)
    have d: "drop (length s) (pem_buf w) = []" using h(2) by simp
    have "int (length s) \<le> sint max_len" "length s \<le> length (pem_buf w)" using h by simp_all
    from acc [OF this] show ?thesis by (simp only: m d append_Nil2)
  qed
  have rty: "ossl_pem_passwd_cb D (Some blk) max_len flag None w
              = Some (Returns (- 1),
                      w\<lparr>yields := Suc (Suc (yields w)),
                        warnings := warnings w
                          @ [(''password must be shorter then %d bytes'', [max_len - 1])]\<rparr>)"
    if h: "sint max_len < int (length s) \<and> (\<exists>e. blk rflag (Suc (yields w)) = Inl e)"
  proof -
    define w1 where "w1 = w\<lparr>yields := Suc (yields w),
                            warnings := warnings w @ [pem_warning max_len s]\<rparr>"
    have "long_to_int (length s) <s 4 \<or> max_len <s long_to_int (length s)"
      using h by (simp add: pl)
    from pem_passwd_loop_retry [where blk = blk and rflag = rflag, OF assms(2) assms(1) this]
    have step: "pem_passwd_loop blk max_len flag w = pem_passwd_loop blk max_len flag w1"
      by (simp only: w1_def)
    from h obtain e where "blk rflag (yields w1) = Inl e" by (auto simp add: w1_def)
    hence "blk rflag (yields w1) = Inl e \<or> (\<exists>v. blk rflag (yields w1) = Inr v \<and> RSTRING v = None)"
      by simp
    from pem_passwd_loop_raise [where blk = blk and rflag = rflag, OF this assms(1)]
    have "pem_passwd_loop blk max_len flag w1 = Some (Returns (- 1), w1\<lparr>yields := Suc (yields w1)\<rparr>)" .
    thus ?thesis
      using c1 by (simp add: ossl_pem_passwd_cb_def step w1_def pem_warning_def)
  qed
  show ?thesis using acc bnd rty by blast
qed

text \<open>
  The demonstration block with \<^verbatim>\<open>max_len\<close> 8, and with \<^verbatim>\<open>max_len\<close> 5, where it raises in
  the end; eight bytes into a buffer of eight; and the same password against
  \<^verbatim>\<open>max_len\<close> 7.
\<close>

lemma ossl_pem_passwd_cb_examples:
  "ossl_pem_passwd_cb no_def_callback (Some demo_block) 8 1 None demo_pem
     = Some (Returns 6,
             \<lparr>pem_buf = ''secret..'',
              warnings = [(''password must be longer than 4 bytes'', []),
                          (''password must be shorter then %d bytes'', [7])],
              yields = 3\<rparr>)
   \<and> ossl_pem_passwd_cb no_def_callback (Some demo_block) 5 0 None demo_pem
     = Some (Returns (- 1),
             \<lparr>pem_buf = ''........'',
              warnings = [(''password must be longer than 4 bytes'', []),
                          (''password must be shorter then %d bytes'', [4]),
                          (''password must be shorter then %d bytes'', [4])],
              yields = 4\<rparr>)
   \<and> ossl_pem_passwd_cb no_def_callback (Some demo_block8) 8 0 None demo_pem
     = Some (Returns 8, \<lparr>pem_buf = ''passw0rd'', warnings = [], yields = 1\<rparr>)
   \<and> ossl_pem_passwd_cb no_def_callback (Some demo_block8) 7 0 None demo_pem
     = Some (Returns (- 1),
             \<lparr>pem_buf = ''........'',
              warnings = [(''password must be shorter then %d bytes'', [6])], yields = 2\<rparr>)"
proof -
  have f1: "Qtrue = (if (1::cint) \<noteq> 0 then Qtrue else Qfalse)" by simp
  have f0: "Qfalse = (if (0::cint) \<noteq> 0 then Qtrue else Qfalse)" by simp
  have b1: "\<forall>i<length [''abc'', ''0123456789''].
              \<exists>a. demo_block Qtrue (yields demo_pem + i) = Inr (RString a ([''abc'', ''0123456789''] ! i))
                \<and> length ([''abc'', ''0123456789''] ! i) < 2 ^ 31
                \<and> (length ([''abc'', ''0123456789''] ! i) < 4
                    \<or> sint (8::cint) < int (length ([''abc'', ''0123456789''] ! i)))"
    by (simp add: demo_block_def demo_pem_def All_less_Suc)
  have b0: "\<forall>i<length [''abc'', ''0123456789'', ''secret''].
              \<exists>a. demo_block Qfalse (yields demo_pem + i)
                     = Inr (RString a ([''abc'', ''0123456789'', ''secret''] ! i))
                \<and> length ([''abc'', ''0123456789'', ''secret''] ! i) < 2 ^ 31
                \<and> (length ([''abc'', ''0123456789'', ''secret''] ! i) < 4
                    \<or> sint (5::cint) < int (length ([''abc'', ''0123456789'', ''secret''] ! i)))"
    by (simp add: demo_block_def demo_pem_def All_less_Suc)
  have s6: "long_to_int (length ''secret'') = 6" by (simp add: long_to_int_def)
  have s3: "long_to_int (length ''abc'') <s 4" by (simp add: long_to_int_def)
  have s10: "\<not> long_to_int (length ''0123456789'') <s 4" by (simp add: long_to_int_def)
  have s6': "\<not> long_to_int (length ''secret'') <s 4" by (simp add: long_to_int_def)
  from ossl_pem_passwd_cb_protocol [where blk = demo_block and D = no_def_callback, OF f1 b1]
  have e1: "ossl_pem_passwd_cb no_def_callback (Some demo_block) 8 1 None demo_pem
     = Some (Returns 6,
             \<lparr>pem_buf = ''secret..'',
              warnings = [(''password must be longer than 4 bytes'', []),
                          (''password must be shorter then %d bytes'', [7])],
              yields = 3\<rparr>)"
    using s6 s3 s10 by (simp add: demo_block_def demo_pem_def pem_warning_def)
  from ossl_pem_passwd_cb_protocol [where blk = demo_block and D = no_def_callback, OF f0 b0]
  have e2: "ossl_pem_passwd_cb no_def_callback (Some demo_block) 5 0 None demo_pem
     = Some (Returns (- 1),
             \<lparr>pem_buf = ''........'',
              warnings = [(''password must be longer than 4 bytes'', []),
                          (''password must be shorter then %d bytes'', [4]),
                          (''password must be shorter then %d bytes'', [4])],
              yields = 4\<rparr>)"
    using s3 s10 s6' by (simp add: demo_block_def demo_pem_def pem_warning_def)
  have b: "demo_block8 Qfalse (yields demo_pem) = Inr (RString 5 ''passw0rd'')"
    by (simp add: demo_block8_def demo_pem_def)
  have l4: "4 \<le> length ''passw0rd''" by simp
  have l31: "length ''passw0rd'' < 2 ^ 31" by simp
  have s8: "long_to_int (length ''passw0rd'') = 8" by (simp add: long_to_int_def)
  from ossl_pem_passwd_cb_boundary [where blk = demo_block8 and D = no_def_callback
      and max_len = 8, OF f0 b l4 l31]
  have e3: "ossl_pem_passwd_cb no_def_callback (Some demo_block8) 8 0 None demo_pem
     = Some (Returns 8, \<lparr>pem_buf = ''passw0rd'', warnings = [], yields = 1\<rparr>)"
    using s8 by (simp add: demo_pem_def)
  from ossl_pem_passwd_cb_boundary [where blk = demo_block8 and D = no_def_callback
      and max_len = 7, OF f0 b l4 l31]
  have e4: "ossl_pem_passwd_cb no_def_callback (Some demo_block8) 7 0 None demo_pem
     = Some (Returns (- 1),
             \<lparr>pem_buf = ''........'',
              warnings = [(''password must be shorter then %d bytes'', [6])], yields = 2\<rparr>)"
    by (simp add: demo_pem_def demo_block8_def)
  show ?thesis using e1 e2 e3 e4 by blast
qed

subsection \<open>Passwords of \<open>2\<^sup>3\<^sup>1\<close> bytes and more\<close>

lemma long_block_len: "long_to_int (length (replicate (4294967296 + k) c)) = long_to_int k"
  by (simp only: length_replicate long_to_int_wrap)

lemma long_block_take:
  "k \<le> 8 \<Longrightarrow> take k (replicate (4294967296 + k) c) = replicate k c"
  by simp

text \<open>
  C3.  The block returns a password of \<open>2\<^sup>3\<^sup>2 + 4\<close> bytes, which is longer than
  \<^verbatim>\<open>max_len\<close>, here 8.  The callback reads the length as 4, the low 32 bits: it emits no
  warning and does not invoke the block again, but copies the first four bytes into the
  native buffer and returns 4.
\<close>

theorem ossl_pem_passwd_cb_long_password:
  "long_block 4 Qfalse 0 = Inr (RString 7 (replicate 4294967300 (CHR ''x'')))
   \<and> sint (8::cint) < int (length (replicate 4294967300 (CHR ''x'')))
   \<and> long_to_int (length (replicate 4294967300 (CHR ''x''))) = 4
   \<and> ossl_pem_passwd_cb no_def_callback (Some (long_block 4)) 8 0 None demo_pem
       = Some (Returns 4, \<lparr>pem_buf = ''xxxx....'', warnings = [], yields = 1\<rparr>)"
proof -
  define s where "s = replicate (4294967296 + 4) (CHR ''x'')"
  have f0: "Qfalse = (if (0::cint) \<noteq> 0 then Qtrue else Qfalse)" by simp
  have b: "long_block 4 Qfalse (yields demo_pem) = Inr (RString 7 s)"
    by (simp add: long_block_def s_def)
  have l: "long_to_int (length s) = 4"
    unfolding s_def long_block_len by (simp add: long_to_int_def)
  have c1: "\<not> long_to_int (length s) <s 4" unfolding l by simp
  have c2: "\<not> (8::cint) <s long_to_int (length s)" unfolding l by simp
  have c3: "nat (sint (long_to_int (length s))) \<le> length (pem_buf demo_pem)"
    unfolding l by (simp add: demo_pem_def)
  have t: "take 4 s = ''xxxx''"
    unfolding s_def by (simp only: long_block_take) (simp add: numeral_eq_Suc)
  have n: "nat (sint (4::cint)) = 4" by simp
  from pem_passwd_loop_accept [where blk = "long_block 4" and rflag = Qfalse, OF b f0 c1 c2 c3]
  have "pem_passwd_loop (long_block 4) 8 0 demo_pem
          = Some (Returns 4, demo_pem\<lparr>yields := Suc (yields demo_pem),
                               pem_buf := take 4 s @ drop 4 (pem_buf demo_pem)\<rparr>)"
    by (simp only: l n)
  hence r: "ossl_pem_passwd_cb no_def_callback (Some (long_block 4)) 8 0 None demo_pem
       = Some (Returns 4, \<lparr>pem_buf = ''xxxx....'', warnings = [], yields = 1\<rparr>)"
    by (simp add: ossl_pem_passwd_cb_def t demo_pem_def)
  have s': "s = replicate 4294967300 (CHR ''x'')" by (simp add: s_def)
  have g: "sint (8::cint) < int (length s)" by (simp add: s_def)
  show ?thesis using b l r g unfolding s' by (simp add: demo_pem_def)
qed

text \<open>
  No direct password, a block given: the branch of the loop is the one taken, the
  callback returns, and it has logged no warning.
\<close>

theorem ossl_pem_passwd_cb_long_password_witness:
  "(None :: string option) = None \<and> Some (long_block 4) \<noteq> None
   \<and> map_option fst (ossl_pem_passwd_cb no_def_callback (Some (long_block 4)) 8 0 None demo_pem)
       = Some (Returns 4)
   \<and> map_option (warnings \<circ> snd)
         (ossl_pem_passwd_cb no_def_callback (Some (long_block 4)) 8 0 None demo_pem)
       = Some []"
  using ossl_pem_passwd_cb_long_password by simp

text \<open>
  C10.  The block returns a password of \<open>2\<^sup>3\<^sup>2 + 5\<close> bytes, \<^verbatim>\<open>max_len\<close> being 8.  The
  callback accepts it, although its length is not at most \<^verbatim>\<open>max_len\<close>, and copies five
  bytes into the native buffer, not the length of the password; it returns 5.
\<close>

theorem ossl_pem_passwd_cb_long_copy:
  "long_block 5 Qtrue 0 = Inr (RString 7 (replicate 4294967301 (CHR ''x'')))
   \<and> length (replicate 4294967301 (CHR ''x'')) = 4294967301
   \<and> \<not> int (length (replicate 4294967301 (CHR ''x''))) \<le> sint (8::cint)
   \<and> ossl_pem_passwd_cb no_def_callback (Some (long_block 5)) 8 1 None demo_pem
       = Some (Returns 5, \<lparr>pem_buf = ''xxxxx...'', warnings = [], yields = 1\<rparr>)
   \<and> length ''xxxxx'' \<noteq> length (replicate 4294967301 (CHR ''x''))"
proof -
  define s where "s = replicate (4294967296 + 5) (CHR ''x'')"
  have f1: "Qtrue = (if (1::cint) \<noteq> 0 then Qtrue else Qfalse)" by simp
  have b: "long_block 5 Qtrue (yields demo_pem) = Inr (RString 7 s)"
    by (simp add: long_block_def s_def)
  have l: "long_to_int (length s) = 5"
    unfolding s_def long_block_len by (simp add: long_to_int_def)
  have c1: "\<not> long_to_int (length s) <s 4" unfolding l by simp
  have c2: "\<not> (8::cint) <s long_to_int (length s)" unfolding l by simp
  have c3: "nat (sint (long_to_int (length s))) \<le> length (pem_buf demo_pem)"
    unfolding l by (simp add: demo_pem_def)
  have t: "take 5 s = ''xxxxx''"
    unfolding s_def by (simp only: long_block_take) (simp add: numeral_eq_Suc)
  have n: "nat (sint (5::cint)) = 5" by simp
  from pem_passwd_loop_accept [where blk = "long_block 5" and rflag = Qtrue, OF b f1 c1 c2 c3]
  have "pem_passwd_loop (long_block 5) 8 1 demo_pem
          = Some (Returns 5, demo_pem\<lparr>yields := Suc (yields demo_pem),
                               pem_buf := take 5 s @ drop 5 (pem_buf demo_pem)\<rparr>)"
    by (simp only: l n)
  hence r: "ossl_pem_passwd_cb no_def_callback (Some (long_block 5)) 8 1 None demo_pem
       = Some (Returns 5, \<lparr>pem_buf = ''xxxxx...'', warnings = [], yields = 1\<rparr>)"
    by (simp add: ossl_pem_passwd_cb_def t demo_pem_def)
  have s': "s = replicate 4294967301 (CHR ''x'')" by (simp add: s_def)
  have g: "\<not> int (length s) \<le> sint (8::cint)" by (simp add: s_def)
  have d: "length ''xxxxx'' \<noteq> length s" by (simp add: s_def)
  have e: "length s = 4294967301" by (simp add: s_def)
  show ?thesis using b r g d e unfolding s' by (simp add: demo_pem_def)
qed

text \<open>
  No direct password, a block given: the branch of the loop is the one taken, the
  callback returns, and the buffer holds five bytes of the password.
\<close>

theorem ossl_pem_passwd_cb_long_copy_witness:
  "(None :: string option) = None \<and> Some (long_block 5) \<noteq> None
   \<and> map_option fst (ossl_pem_passwd_cb no_def_callback (Some (long_block 5)) 8 1 None demo_pem)
       = Some (Returns 5)
   \<and> map_option (pem_buf \<circ> snd)
         (ossl_pem_passwd_cb no_def_callback (Some (long_block 5)) 8 1 None demo_pem)
       = Some ''xxxxx...''"
  using ossl_pem_passwd_cb_long_copy by simp

section \<open>Certificate sequence converter: \<^verbatim>\<open>ossl_x509_ary2sk\<close>\<close>










subsection \<open>Freeing the stack\<close>












subsection \<open>An element that is not a certificate\<close>




end
